theory Spec2Isabelle
  imports Main "HOL-Library.AList"
begin

section \<open>Python values, exceptions and dictionaries\<close>

text \<open>
  The values that flow through \<^verbatim>\<open>starter_server.py\<close> are what \<^verbatim>\<open>json.load\<close> and
  \<^verbatim>\<open>model_dump()\<close> return: \<^verbatim>\<open>None\<close>, booleans, numbers, strings, lists and
  dictionaries with string keys. A dictionary is an association list in insertion order,
  which is also the order of \<^verbatim>\<open>.items()\<close>; numbers are integers.
\<close>

datatype json =
    JNull
  | JBool bool
  | JNum int
  | JStr string
  | JArr "json list"
  | JObj "(string \<times> json) list"

text \<open>Exceptions carry the text that \<^verbatim>\<open>str(e)\<close> yields. All of them derive from
  \<^verbatim>\<open>Exception\<close>; \<open>OtherError cls msg\<close> stands for any further class.\<close>

datatype exn =
    ValueError string
  | FileNotFoundError string
  | AttributeError string
  | TypeError string
  | OtherError string string

fun str_exn :: "exn \<Rightarrow> string" where
  "str_exn (ValueError m) = m"
| "str_exn (FileNotFoundError m) = m"
| "str_exn (AttributeError m) = m"
| "str_exn (TypeError m) = m"
| "str_exn (OtherError c m) = m"

definition quoted :: "string \<Rightarrow> string" where
  "quoted s = CHR 0x27 # s @ [CHR 0x27]"

fun type_name :: "json \<Rightarrow> string" where
  "type_name JNull = ''NoneType''"
| "type_name (JBool b) = ''bool''"
| "type_name (JNum n) = ''int''"
| "type_name (JStr s) = ''str''"
| "type_name (JArr xs) = ''list''"
| "type_name (JObj kvs) = ''dict''"

definition no_attribute :: "json \<Rightarrow> string \<Rightarrow> exn" where
  "no_attribute v a =
     AttributeError (quoted (type_name v) @ '' object has no attribute '' @ quoted a)"

text \<open>Python truthiness, as tested by \<^verbatim>\<open>if content:\<close> and
  \<^verbatim>\<open>if matched_entry.get("content_files"):\<close>.\<close>

fun truthy :: "json \<Rightarrow> bool" where
  "truthy JNull = False"
| "truthy (JBool b) = b"
| "truthy (JNum n) = (n \<noteq> 0)"
| "truthy (JStr s) = (s \<noteq> [])"
| "truthy (JArr xs) = (xs \<noteq> [])"
| "truthy (JObj kvs) = (kvs \<noteq> [])"

text \<open>\<^verbatim>\<open>d.get(k, default)\<close>: only a dictionary has the method.\<close>

definition dict_get :: "json \<Rightarrow> string \<Rightarrow> json \<Rightarrow> exn + json" where
  "dict_get d k dflt =
     (case d of
        JObj kvs \<Rightarrow> Inr (case map_of kvs k of Some v \<Rightarrow> v | None \<Rightarrow> dflt)
      | _ \<Rightarrow> Inl (no_attribute d ''get''))"

text \<open>\<^verbatim>\<open>d.items()\<close>.\<close>

definition dict_items :: "json \<Rightarrow> exn + (string \<times> json) list" where
  "dict_items d =
     (case d of
        JObj kvs \<Rightarrow> Inr kvs
      | _ \<Rightarrow> Inl (no_attribute d ''items''))"

text \<open>\<^verbatim>\<open>d.copy()\<close>: dictionaries and lists have the method.\<close>

definition dict_copy :: "json \<Rightarrow> exn + json" where
  "dict_copy d =
     (case d of
        JObj kvs \<Rightarrow> Inr (JObj kvs)
      | JArr xs \<Rightarrow> Inr (JArr xs)
      | _ \<Rightarrow> Inl (no_attribute d ''copy''))"

text \<open>\<^verbatim>\<open>d[k] = v\<close> with a string key: an existing key keeps its position, a new key is
  appended; anything but a dictionary raises \<^verbatim>\<open>TypeError\<close>.\<close>

definition setitem :: "json \<Rightarrow> string \<Rightarrow> json \<Rightarrow> exn + json" where
  "setitem d k v =
     (case d of
        JObj kvs \<Rightarrow> Inr (JObj (AList.update k v kvs))
      | JArr xs \<Rightarrow> Inl (TypeError ''list indices must be integers or slices, not str'')
      | _ \<Rightarrow> Inl (TypeError (quoted (type_name d) @ '' object does not support item assignment'')))"

section \<open>The environment and the file system\<close>

text \<open>
  The collaborators are parameters of the model:
  \<^item> \<open>getenv\<close> is \<^verbatim>\<open>os.getenv\<close>;
  \<^item> \<open>FirecrawlApp\<close> is the constructor \<^verbatim>\<open>FirecrawlApp(api_key=...)\<close>, which raises or
    yields a client; the client maps a url and the formats to what
    \<^verbatim>\<open>app.scrape(url=url, formats=formats).model_dump()\<close> returns or raises;
  \<^item> \<open>urlparse_netloc\<close> is \<^verbatim>\<open>urlparse(url).netloc\<close>, which raises \<^verbatim>\<open>ValueError\<close> on
    some strings;
  \<^item> \<open>utcnow_isoformat n\<close> is the text of the \<open>n\<close>-th reading of the clock,
    \<^verbatim>\<open>datetime.utcnow().isoformat()\<close>;
  \<^item> \<open>open_w path\<close> is the exception that \<^verbatim>\<open>open(path, 'w')\<close> raises, if any;
  \<^item> \<open>py_str\<close> is Python's \<^verbatim>\<open>str\<close> on a value that is not a string.
\<close>

type_synonym scraper = "string \<Rightarrow> string list \<Rightarrow> exn + json"

record env =
  getenv :: "string \<Rightarrow> string option"
  FirecrawlApp :: "string \<Rightarrow> exn + scraper"
  urlparse_netloc :: "string \<Rightarrow> exn + string"
  utcnow_isoformat :: "nat \<Rightarrow> string"
  open_w :: "string \<Rightarrow> exn option"
  py_str :: "json \<Rightarrow> string"

text \<open>The metadata file is absent, or present and rejected by \<^verbatim>\<open>json.load\<close> with an
  exception, or present and parsed to a value.\<close>

datatype store_file = Absent | Unparseable exn | Parsed json

text \<open>The effects a call performs on its collaborators and on the disk, in order.\<close>

datatype event =
    NewApp string
  | Scrape string "string list"
  | WriteFile string string
  | WriteMetadata json

text \<open>
  \<open>files w p = Some t\<close> when the file at path \<open>p\<close> can be opened and decoded and holds
  the text \<open>t\<close>, as it is stored; \<open>None\<close> when opening or reading it raises. The
  metadata file is kept apart from the content files: every content path ends in
  \<^verbatim>\<open>.txt\<close>.
\<close>

record world =
  dir_exists :: bool
  files :: "string \<rightharpoonup> string"
  metadata_file :: store_file
  clock :: nat
  log :: "event list"

text \<open>
  Not modelled: a failure of \<^verbatim>\<open>os.makedirs\<close>; a failure while \<^verbatim>\<open>json.dump\<close> writes;
  exceptions outside \<^verbatim>\<open>Exception\<close>, which \<^verbatim>\<open>except Exception\<close> lets pass; numbers that
  are not integers; logging, which changes nothing that the tools read.
\<close>

definition SCRAPE_DIR :: string where
  "SCRAPE_DIR = ''scraped_content''"

text \<open>\<^verbatim>\<open>os.path.join(a, b)\<close> on POSIX.\<close>

definition path_join :: "string \<Rightarrow> string \<Rightarrow> string" where
  "path_join a b =
     (if take 1 b = ''/'' then b
      else if a = [] \<or> last a = CHR ''/'' then a @ b
      else a @ ''/'' @ b)"

definition metadata_path :: string where
  "metadata_path = path_join SCRAPE_DIR ''scraped_metadata.json''"

definition emit :: "event \<Rightarrow> world \<Rightarrow> world" where
  "emit ev w = w\<lparr>log := log w @ [ev]\<rparr>"

text \<open>Writing in text mode on POSIX: a line feed is stored as a line feed, so the file
  holds the text as given.\<close>

definition write_file :: "string \<Rightarrow> string \<Rightarrow> world \<Rightarrow> world" where
  "write_file path text w = emit (WriteFile path text) (w\<lparr>files := (files w)(path \<mapsto> text)\<rparr>)"

definition utcnow :: "env \<Rightarrow> world \<Rightarrow> string \<times> world" where
  "utcnow E w = (utcnow_isoformat E (clock w), w\<lparr>clock := Suc (clock w)\<rparr>)"

section \<open>\<^verbatim>\<open>scrape_websites\<close>\<close>

definition missing_key_message :: string where
  "missing_key_message = ''API key must be provided or set as FIRECRAWL_API_KEY environment variable''"

text \<open>Lines 44 to 47: the credential.\<close>

definition resolve_api_key :: "env \<Rightarrow> string option \<Rightarrow> exn + string" where
  "resolve_api_key E api_key =
     (case api_key of
        Some k \<Rightarrow> Inr k
      | None \<Rightarrow>
          (case getenv E ''FIRECRAWL_API_KEY'' of
             None \<Rightarrow> Inl (ValueError missing_key_message)
           | Some k \<Rightarrow> if k = [] then Inl (ValueError missing_key_message) else Inr k))"

text \<open>A value inside an f-string.\<close>

definition format_value :: "env \<Rightarrow> json \<Rightarrow> string" where
  "format_value E v = (case v of JStr s \<Rightarrow> s | _ \<Rightarrow> py_str E v)"

text \<open>Lines 95 and 96: the exception raised on a status other than 200. Evaluating the
  message can itself raise.\<close>

definition scrape_error :: "env \<Rightarrow> string \<Rightarrow> string \<Rightarrow> json \<Rightarrow> exn" where
  "scrape_error E provider_name url scrape_result =
     (case dict_get scrape_result ''data'' (JObj []) of
        Inl e \<Rightarrow> e
      | Inr d \<Rightarrow>
          (case dict_get d ''metadata'' (JObj []) of
             Inl e \<Rightarrow> e
           | Inr m \<Rightarrow>
               (case dict_get m ''error'' (JStr ''Unknown error'') of
                  Inl e \<Rightarrow> e
                | Inr v \<Rightarrow>
                    ValueError (''Scrape failed for '' @ provider_name @ '' at '' @ url @ '' ''
                      @ replicate 34 CHR '' '' @ ''with error: '' @ format_value E v))))"

text \<open>Lines 94 to 99: the status check; the result is \<^verbatim>\<open>scrape_result_data\<close>.\<close>

definition check_status :: "env \<Rightarrow> string \<Rightarrow> string \<Rightarrow> json \<Rightarrow> exn + json" where
  "check_status E provider_name url scrape_result =
     (case dict_get scrape_result ''metadata'' (JObj []) of
        Inl e \<Rightarrow> Inl e
      | Inr md \<Rightarrow>
          (case dict_get md ''status_code'' (JNum 0) of
             Inl e \<Rightarrow> Inl e
           | Inr sc \<Rightarrow>
               if sc \<noteq> JNum 200 then Inl (scrape_error E provider_name url scrape_result)
               else Inr md))"

definition content_filename :: "string \<Rightarrow> string \<Rightarrow> string" where
  "content_filename provider_name fmt = provider_name @ ''_'' @ fmt @ ''.txt''"

text \<open>Lines 101 to 109: the loop over the formats. \<^verbatim>\<open>open(filepath, 'w')\<close> truncates the
  file before \<^verbatim>\<open>f.write\<close> rejects a content that is not a string.\<close>

fun write_formats ::
  "env \<Rightarrow> string \<Rightarrow> json \<Rightarrow> string list \<Rightarrow> (string \<times> json) list \<Rightarrow> world
    \<Rightarrow> (exn + (string \<times> json) list) \<times> world" where
  "write_formats E provider_name scrape_result [] content_files w = (Inr content_files, w)"
| "write_formats E provider_name scrape_result (fmt # fmts) content_files w =
     (case dict_get scrape_result fmt JNull of
        Inl e \<Rightarrow> (Inl e, w)
      | Inr content \<Rightarrow>
          if truthy content then
            (let filename = content_filename provider_name fmt;
                 filepath = path_join SCRAPE_DIR filename
             in case open_w E filepath of
                  Some e \<Rightarrow> (Inl e, w)
                | None \<Rightarrow>
                    (case content of
                       JStr s \<Rightarrow>
                         write_formats E provider_name scrape_result fmts
                           (AList.update fmt (JStr filename) content_files)
                           (write_file filepath s w)
                     | _ \<Rightarrow>
                         (Inl (TypeError (''write() argument must be str, not '' @ type_name content)),
                          write_file filepath [] w)))
          else write_formats E provider_name scrape_result fmts content_files w)"

text \<open>Lines 119 and 120: \<^verbatim>\<open>scrape_result_data.get("metadata", {}).get(key, "")\<close>.\<close>

definition nested_field :: "json \<Rightarrow> string \<Rightarrow> exn + json" where
  "nested_field scrape_result_data key =
     (case dict_get scrape_result_data ''metadata'' (JObj []) of
        Inl e \<Rightarrow> Inl e
      | Inr inner \<Rightarrow> dict_get inner key (JStr []))"

definition success_record ::
  "string \<Rightarrow> string \<Rightarrow> string \<Rightarrow> string \<Rightarrow> string list \<Rightarrow> (string \<times> json) list \<Rightarrow> json \<Rightarrow> json \<Rightarrow> json" where
  "success_record provider_name url domain scraped_at formats content_files title description =
     JObj [(''provider_name'', JStr provider_name),
           (''url'', JStr url),
           (''domain'', JStr domain),
           (''scraped_at'', JStr scraped_at),
           (''formats'', JArr (map JStr formats)),
           (''success'', JBool True),
           (''content_files'', JObj content_files),
           (''title'', title),
           (''description'', description)]"

definition failure_record ::
  "string \<Rightarrow> string \<Rightarrow> string \<Rightarrow> string \<Rightarrow> string list \<Rightarrow> string \<Rightarrow> json" where
  "failure_record provider_name url domain scraped_at formats error =
     JObj [(''provider_name'', JStr provider_name),
           (''url'', JStr url),
           (''domain'', JStr domain),
           (''scraped_at'', JStr scraped_at),
           (''formats'', JArr (map JStr formats)),
           (''success'', JBool False),
           (''error'', JStr error)]"

text \<open>
  Lines 91 to 121, up to the value of the dictionary literal: the call of the
  collaborator, the status check, the content files and the fields of the record, in the
  order in which Python evaluates them. An exception leaves the world as far as it got.
\<close>

definition scrape_provider ::
  "env \<Rightarrow> scraper \<Rightarrow> string list \<Rightarrow> string \<Rightarrow> string \<Rightarrow> world \<Rightarrow> (exn + json) \<times> world" where
  "scrape_provider E app formats provider_name url w0 =
     (let w1 = emit (Scrape url formats) w0 in
      case app url formats of
        Inl e \<Rightarrow> (Inl e, w1)
      | Inr scrape_result \<Rightarrow>
          (case check_status E provider_name url scrape_result of
             Inl e \<Rightarrow> (Inl e, w1)
           | Inr scrape_result_data \<Rightarrow>
               (case write_formats E provider_name scrape_result formats [] w1 of
                  (Inl e, w2) \<Rightarrow> (Inl e, w2)
                | (Inr content_files, w2) \<Rightarrow>
                    (case urlparse_netloc E url of
                       Inl e \<Rightarrow> (Inl e, w2)
                     | Inr domain \<Rightarrow>
                         (case utcnow E w2 of
                            (scraped_at, w3) \<Rightarrow>
                              (case nested_field scrape_result_data ''title'' of
                                 Inl e \<Rightarrow> (Inl e, w3)
                               | Inr title \<Rightarrow>
                                   (case nested_field scrape_result_data ''description'' of
                                      Inl e \<Rightarrow> (Inl e, w3)
                                    | Inr description \<Rightarrow>
                                        (Inr (success_record provider_name url domain scraped_at
                                                formats content_files title description),
                                         w3))))))))"

text \<open>
  The state of the loop is the pair of \<^verbatim>\<open>scraped_metadata\<close> and
  \<^verbatim>\<open>successful_scrapes\<close>. Lines 91 to 124, the body of the \<^verbatim>\<open>try\<close>: the record
  is assigned under the provider's name and the name is appended. An exception leaves
  the pair as it was.
\<close>

type_synonym batch = "json \<times> string list"

definition try_scrape ::
  "env \<Rightarrow> scraper \<Rightarrow> string list \<Rightarrow> string \<Rightarrow> string \<Rightarrow> batch \<Rightarrow> world \<Rightarrow> (exn + batch) \<times> world" where
  "try_scrape E app formats provider_name url st w =
     (case scrape_provider E app formats provider_name url w of
        (Inl e, w') \<Rightarrow> (Inl e, w')
      | (Inr record, w') \<Rightarrow>
          (case setitem (fst st) provider_name record of
             Inl e \<Rightarrow> (Inl e, w')
           | Inr sm \<Rightarrow> (Inr (sm, snd st @ [provider_name]), w')))"

text \<open>Lines 126 to 136, the handler: nothing catches what it raises.\<close>

definition record_failure ::
  "env \<Rightarrow> string list \<Rightarrow> string \<Rightarrow> string \<Rightarrow> exn \<Rightarrow> batch \<Rightarrow> world \<Rightarrow> (exn + batch) \<times> world" where
  "record_failure E formats provider_name url e st w =
     (case urlparse_netloc E url of
        Inl e' \<Rightarrow> (Inl e', w)
      | Inr domain \<Rightarrow>
          (case utcnow E w of
             (scraped_at, w') \<Rightarrow>
               (case setitem (fst st) provider_name
                       (failure_record provider_name url domain scraped_at formats (str_exn e)) of
                  Inl e' \<Rightarrow> (Inl e', w')
                | Inr sm \<Rightarrow> (Inr (sm, snd st), w'))))"

text \<open>Lines 88 to 136: one iteration of the loop over \<^verbatim>\<open>websites.items()\<close>.\<close>

definition process_provider ::
  "env \<Rightarrow> scraper \<Rightarrow> string list \<Rightarrow> string \<Rightarrow> string \<Rightarrow> batch \<Rightarrow> world \<Rightarrow> (exn + batch) \<times> world" where
  "process_provider E app formats provider_name url st w =
     (case try_scrape E app formats provider_name url st w of
        (Inr st', w') \<Rightarrow> (Inr st', w')
      | (Inl e, w') \<Rightarrow> record_failure E formats provider_name url e st w')"

fun scrape_loop ::
  "env \<Rightarrow> scraper \<Rightarrow> string list \<Rightarrow> (string \<times> string) list \<Rightarrow> batch \<Rightarrow> world \<Rightarrow> (exn + batch) \<times> world" where
  "scrape_loop E app formats [] st w = (Inr st, w)"
| "scrape_loop E app formats ((provider_name, url) # rest) st w =
     (case process_provider E app formats provider_name url st w of
        (Inl e, w') \<Rightarrow> (Inl e, w')
      | (Inr st', w') \<Rightarrow> scrape_loop E app formats rest st' w')"

text \<open>Lines 78 to 82: the metadata read at the start.\<close>

definition load_metadata :: "world \<Rightarrow> exn + json" where
  "load_metadata w =
     (case metadata_file w of
        Absent \<Rightarrow> Inr (JObj [])
      | Unparseable e \<Rightarrow> Inl e
      | Parsed j \<Rightarrow> Inr j)"

text \<open>Lines 49 to 144: the call once the credential is known.\<close>

definition scrape_with_key ::
  "env \<Rightarrow> (string \<times> string) list \<Rightarrow> string list \<Rightarrow> string \<Rightarrow> world \<Rightarrow> (exn + string list) \<times> world" where
  "scrape_with_key E websites formats key w =
     (let w1 = emit (NewApp key) w in
      case FirecrawlApp E key of
        Inl e \<Rightarrow> (Inl e, w1)
      | Inr app \<Rightarrow>
          (let w2 = w1\<lparr>dir_exists := True\<rparr> in
           case load_metadata w2 of
             Inl e \<Rightarrow> (Inl e, w2)
           | Inr scraped_metadata \<Rightarrow>
               (case scrape_loop E app formats websites (scraped_metadata, []) w2 of
                  (Inl e, w3) \<Rightarrow> (Inl e, w3)
                | (Inr (sm, successful_scrapes), w3) \<Rightarrow>
                    (case open_w E metadata_path of
                       Some e \<Rightarrow> (Inl e, w3)
                     | None \<Rightarrow>
                         (Inr successful_scrapes,
                          emit (WriteMetadata sm) (w3\<lparr>metadata_file := Parsed sm\<rparr>))))))"

text \<open>The tool: \<open>websites\<close> is the dictionary's items in order, \<open>api_key\<close> is
  \<open>None\<close> for Python's \<^verbatim>\<open>None\<close>. The result is the returned list or the exception that
  leaves the call, with the world the call leaves behind.\<close>

definition scrape_websites ::
  "env \<Rightarrow> (string \<times> string) list \<Rightarrow> string list \<Rightarrow> string option \<Rightarrow> world \<Rightarrow> (exn + string list) \<times> world" where
  "scrape_websites E websites formats api_key w =
     (case resolve_api_key E api_key of
        Inl e \<Rightarrow> (Inl e, w)
      | Inr key \<Rightarrow> scrape_with_key E websites formats key w)"

section \<open>\<^verbatim>\<open>extract_scraped_info\<close>\<close>

datatype reply = Message string | JsonText json

definition not_found :: "string \<Rightarrow> string" where
  "not_found identifier =
     ''There'' @ [CHR 0x27] @ ''s no saved information related to identifier '' @ quoted identifier @ ''.''"

text \<open>Lines 178 to 182: the search. The conditions are tried from left to right, so a
  value that is no dictionary raises only when the name differs.\<close>

fun find_entry :: "string \<Rightarrow> (string \<times> json) list \<Rightarrow> exn + json option" where
  "find_entry identifier [] = Inr None"
| "find_entry identifier ((provider_name, data) # rest) =
     (if identifier = provider_name then map_sum id Some (dict_copy data)
      else
        (case dict_get data ''url'' JNull of
           Inl e \<Rightarrow> Inl e
         | Inr u \<Rightarrow>
             if JStr identifier = u then map_sum id Some (dict_copy data)
             else
               (case dict_get data ''domain'' JNull of
                  Inl e \<Rightarrow> Inl e
                | Inr d \<Rightarrow>
                    if JStr identifier = d then map_sum id Some (dict_copy data)
                    else find_entry identifier rest)))"

text \<open>Line 193 opens the file in text mode with the default \<^verbatim>\<open>newline=None\<close>, so line 194
  reads with universal newlines: a carriage return followed by a line feed, and a
  carriage return alone, both come back as one line feed.\<close>

fun universal_newlines :: "string \<Rightarrow> string" where
  "universal_newlines [] = []"
| "universal_newlines [c] = (if c = CHR 0x0D then [CHR 0x0A] else [c])"
| "universal_newlines (c # d # cs) =
     (if c = CHR 0x0D then
        (if d = CHR 0x0A then CHR 0x0A # universal_newlines cs
         else CHR 0x0A # universal_newlines (d # cs))
      else c # universal_newlines (d # cs))"

text \<open>Lines 190 to 198: the loop over \<^verbatim>\<open>content_files\<close>. \<open>None\<close> is the early return
  of the handler; \<^verbatim>\<open>os.path.join\<close> stands outside the \<^verbatim>\<open>try\<close>.\<close>

fun read_contents ::
  "world \<Rightarrow> (string \<times> json) list \<Rightarrow> (string \<times> json) list \<Rightarrow> exn + (string \<times> json) list option" where
  "read_contents w [] content = Inr (Some content)"
| "read_contents w ((fmt, filename) # rest) content =
     (case filename of
        JStr name \<Rightarrow>
          (case files w (path_join SCRAPE_DIR name) of
             None \<Rightarrow> Inr None
           | Some text \<Rightarrow>
               read_contents w rest (AList.update fmt (JStr (universal_newlines text)) content))
      | _ \<Rightarrow>
          Inl (TypeError (''join() argument must be str, bytes, or os.PathLike object, not ''
                 @ quoted (type_name filename))))"

text \<open>Lines 187 to 198: the dictionary \<^verbatim>\<open>result\<close> that the matched entry yields, or
  \<open>None\<close> for the early return.\<close>

definition read_entry :: "world \<Rightarrow> json \<Rightarrow> exn + json option" where
  "read_entry w matched_entry =
     (case dict_get matched_entry ''content_files'' JNull of
        Inl e \<Rightarrow> Inl e
      | Inr cf \<Rightarrow>
          if truthy cf then
            (case dict_items cf of
               Inl e \<Rightarrow> Inl e
             | Inr items \<Rightarrow>
                 (case read_contents w items [] of
                    Inl e \<Rightarrow> Inl e
                  | Inr None \<Rightarrow> Inr None
                  | Inr (Some content) \<Rightarrow> Inr (Some (JObj [(''content'', JObj content)]))))
          else Inr (Some (JObj [])))"

text \<open>The tool. \<open>Message\<close> is a plain string that is returned, \<open>JsonText v\<close> is
  \<^verbatim>\<open>json.dumps(v, indent=2)\<close>. The listing of the directory in line 159 raises when the
  directory is missing.\<close>

definition extract_scraped_info :: "world \<Rightarrow> string \<Rightarrow> exn + reply" where
  "extract_scraped_info w identifier =
     (if \<not> dir_exists w then
        Inl (FileNotFoundError (''[Errno 2] No such file or directory: '' @ quoted SCRAPE_DIR))
      else
        (case metadata_file w of
           Absent \<Rightarrow> Inl (FileNotFoundError (''Metadata file not found at '' @ metadata_path))
         | Unparseable e \<Rightarrow>
             Inl (ValueError (''Error decoding JSON from metadata file: '' @ str_exn e))
         | Parsed scraped_metadata \<Rightarrow>
             (case dict_items scraped_metadata of
                Inl e \<Rightarrow> Inl e
              | Inr items \<Rightarrow>
                  (case find_entry identifier items of
                     Inl e \<Rightarrow> Inl e
                   | Inr None \<Rightarrow> Inr (Message (not_found identifier))
                   | Inr (Some matched_entry) \<Rightarrow>
                       (case read_entry w matched_entry of
                          Inl e \<Rightarrow> Inl e
                        | Inr None \<Rightarrow> Inr (Message (not_found identifier))
                        | Inr (Some result) \<Rightarrow> Inr (JsonText result))))))"

section \<open>Observations\<close>

text \<open>What the theorems say about a run is read off the world it leaves: the files, the
  log of effects and the records of the store. The definitions of this section are not
  part of the program.\<close>

text \<open>The world before the first run: no directory, no file, nothing logged.\<close>

definition fresh_world :: world where
  "fresh_world =
     \<lparr>dir_exists = False, files = Map.empty, metadata_file = Absent, clock = 0, log = []\<rparr>"

text \<open>The path of \<^verbatim>\<open>os.path.join(path, filename)\<close> for a provider and a format.\<close>

definition content_path :: "string \<Rightarrow> string \<Rightarrow> string" where
  "content_path provider_name fmt = path_join SCRAPE_DIR (content_filename provider_name fmt)"

text \<open>\<^verbatim>\<open>scrape_result.get(fmt, None)\<close> on a response that is a dictionary, and the text
  of a content that is a string.\<close>

definition content_of :: "json \<Rightarrow> string \<Rightarrow> json" where
  "content_of scrape_result fmt =
     (case dict_get scrape_result fmt JNull of Inr c \<Rightarrow> c | Inl e \<Rightarrow> JNull)"

fun text_of :: "json \<Rightarrow> string" where
  "text_of (JStr s) = s"
| "text_of _ = []"

text \<open>The writes of content files, the writes of the metadata file and the urls handed to
  the collaborator, as they stand in a log.\<close>

fun is_file_write :: "event \<Rightarrow> bool" where
  "is_file_write (WriteFile p t) = True"
| "is_file_write _ = False"

fun metadata_writes :: "event list \<Rightarrow> json list" where
  "metadata_writes [] = []"
| "metadata_writes (WriteMetadata sm # evs) = sm # metadata_writes evs"
| "metadata_writes (ev # evs) = metadata_writes evs"

fun scraped_urls :: "event list \<Rightarrow> string list" where
  "scraped_urls [] = []"
| "scraped_urls (Scrape url fmts # evs) = url # scraped_urls evs"
| "scraped_urls (ev # evs) = scraped_urls evs"




text \<open>A scrape succeeds when the body of the \<^verbatim>\<open>try\<close> gets as far as its record. Whether
  it does is the same in every world (\<open>scrape_succeeds_iff\<close> below), so it is read off the
  empty one.\<close>

definition scrape_succeeds :: "env \<Rightarrow> scraper \<Rightarrow> string list \<Rightarrow> string \<times> string \<Rightarrow> bool" where
  "scrape_succeeds E app formats site =
     (case fst (scrape_provider E app formats (fst site) (snd site) fresh_world) of
        Inr r \<Rightarrow> True
      | Inl e \<Rightarrow> False)"

subsection \<open>The lookup in the words of the specification\<close>

text \<open>
  \<open>find(identifier)\<close>: a linear search over all records that returns the first whose
  provider name equals, or whose url equals, or whose domain equals the identifier.
  \<open>first_match\<close> is that search, written with the library's \<open>List.find\<close>; it is compared
  with \<open>find_entry\<close>, the loop of the source. \<open>reply_of\<close> is what the tool returns for
  a matched entry once its files have been read.
\<close>

fun is_dict :: "json \<Rightarrow> bool" where
  "is_dict (JObj kvs) = True"
| "is_dict _ = False"

fun is_str :: "json \<Rightarrow> bool" where
  "is_str (JStr s) = True"
| "is_str _ = False"

definition entry_matches :: "string \<Rightarrow> string \<times> json \<Rightarrow> bool" where
  "entry_matches identifier entry =
     (identifier = fst entry \<or>
      dict_get (snd entry) ''url'' JNull = Inr (JStr identifier) \<or>
      dict_get (snd entry) ''domain'' JNull = Inr (JStr identifier))"

definition first_match :: "string \<Rightarrow> (string \<times> json) list \<Rightarrow> json option" where
  "first_match identifier items = map_option snd (List.find (entry_matches identifier) items)"

definition reply_of :: "string \<Rightarrow> exn + json option \<Rightarrow> exn + reply" where
  "reply_of identifier r =
     (case r of
        Inl e \<Rightarrow> Inl e
      | Inr None \<Rightarrow> Inr (Message (not_found identifier))
      | Inr (Some result) \<Rightarrow> Inr (JsonText result))"

text \<open>The shape of the store that \<open>scrape_websites\<close> writes: a dictionary of records, each
  a dictionary whose \<^verbatim>\<open>content_files\<close>, when truthy, is a dictionary of file names.\<close>

definition record_shaped :: "json \<Rightarrow> bool" where
  "record_shaped data =
     (case data of
        JObj kvs \<Rightarrow>
          (case map_of kvs ''content_files'' of
             None \<Rightarrow> True
           | Some cf \<Rightarrow>
               if truthy cf then
                 (case cf of
                    JObj names \<Rightarrow> list_all (\<lambda>entry. is_str (snd entry)) names
                  | _ \<Rightarrow> False)
               else True)
      | _ \<Rightarrow> False)"

definition store_shaped :: "json \<Rightarrow> bool" where
  "store_shaped scraped_metadata =
     (case scraped_metadata of
        JObj items \<Rightarrow> list_all (\<lambda>entry. record_shaped (snd entry)) items
      | _ \<Rightarrow> False)"

section \<open>A concrete collaborator and worlds\<close>

text \<open>
  A client that serves three pages: the first with both formats and with title and
  description directly on the metadata object, the second raises, the third has markdown
  only. A fourth url has an unmatched bracket: the client refuses it, and
  \<^verbatim>\<open>urlparse\<close> raises \<^verbatim>\<open>ValueError\<close> on it, as Python's does.
\<close>

definition demo_app :: scraper where
  "demo_app url formats =
     (if url = ''http://a.io/p'' then
        Inr (JObj [(''markdown'', JStr ''# A''),
                   (''html'', JStr ''<p>A</p>''),
                   (''metadata'', JObj [(''status_code'', JNum 200),
                                        (''title'', JStr ''Acme''),
                                        (''description'', JStr ''Widgets'')])])
      else if url = ''http://b.io'' then Inl (OtherError ''ConnectionError'' ''timed out'')
      else if url = ''http://[::1'' then Inl (OtherError ''BadRequestError'' ''Invalid URL'')
      else
        Inr (JObj [(''markdown'', JStr ''# C''),
                   (''html'', JNull),
                   (''metadata'', JObj [(''status_code'', JNum 200)])]))"

definition demo_netloc :: "string \<Rightarrow> exn + string" where
  "demo_netloc url =
     (if url = ''http://a.io/p'' then Inr ''a.io''
      else if url = ''http://b.io'' then Inr ''b.io''
      else if url = ''http://[::1'' then Inl (ValueError ''Invalid IPv6 URL'')
      else Inr ''c.io'')"

definition demo_env :: env where
  "demo_env =
     \<lparr>getenv = (\<lambda>name. None),
      FirecrawlApp = (\<lambda>key. Inr demo_app),
      urlparse_netloc = demo_netloc,
      utcnow_isoformat =
        (\<lambda>n. if n = 0 then ''2025-10-23T00:44:00''
             else if n = 1 then ''2025-10-23T00:44:01''
             else ''2025-10-23T00:44:02''),
      open_w = (\<lambda>path. None),
      py_str = (\<lambda>v. ''?'')\<rparr>"

definition demo_sites :: "(string \<times> string) list" where
  "demo_sites = [(''acme'', ''http://a.io/p''), (''beta'', ''http://b.io''), (''gamma'', ''http://c.io'')]"

text \<open>An environment whose variable holds a key and whose constructor accepts that key
  alone: with any other key, the empty one included, the constructor raises.\<close>

definition strict_env :: env where
  "strict_env =
     demo_env\<lparr>getenv := (\<lambda>name. if name = ''FIRECRAWL_API_KEY'' then Some ''env-key'' else None),
              FirecrawlApp := (\<lambda>key. if key = ''env-key'' then Inr demo_app
                                     else Inl (ValueError ''No API key provided''))\<rparr>"

text \<open>The store of the specification's example: provider \<^verbatim>\<open>acme\<close> at
  \<^verbatim>\<open>https://acme.example.com/page\<close>, with its markdown file on disk.\<close>

definition acme_world :: world where
  "acme_world =
     \<lparr>dir_exists = True,
      files = [''scraped_content/acme_markdown.txt'' \<mapsto> ''# Acme''],
      metadata_file = Parsed (JObj
        [(''acme'', success_record ''acme'' ''https://acme.example.com/page'' ''acme.example.com''
                     ''2025-10-23T00:44:00'' [''markdown'', ''html'']
                     [(''markdown'', JStr ''acme_markdown.txt'')] (JStr []) (JStr []))]),
      clock = 1,
      log = []\<rparr>"

text \<open>The same record with a second content file that is not on disk.\<close>

definition missing_file_world :: world where
  "missing_file_world =
     \<lparr>dir_exists = True,
      files = [''scraped_content/acme_markdown.txt'' \<mapsto> ''# Acme''],
      metadata_file = Parsed (JObj
        [(''acme'', success_record ''acme'' ''https://acme.example.com/page'' ''acme.example.com''
                     ''2025-10-23T00:44:00'' [''markdown'', ''html'']
                     [(''markdown'', JStr ''acme_markdown.txt''), (''html'', JStr ''acme_html.txt'')]
                     (JStr []) (JStr []))]),
      clock = 1,
      log = []\<rparr>"

text \<open>Two providers on one domain, as a batch of two urls on \<^verbatim>\<open>x.io\<close> leaves them.\<close>

definition shared_domain_world :: world where
  "shared_domain_world =
     \<lparr>dir_exists = True,
      files = [''scraped_content/a_markdown.txt'' \<mapsto> ''# A'',
               ''scraped_content/b_markdown.txt'' \<mapsto> ''# B''],
      metadata_file = Parsed (JObj
        [(''a'', success_record ''a'' ''http://x.io/1'' ''x.io'' ''2025-10-23T00:44:00'' [''markdown'']
                  [(''markdown'', JStr ''a_markdown.txt'')] (JStr []) (JStr [])),
         (''b'', success_record ''b'' ''http://x.io/2'' ''x.io'' ''2025-10-23T00:44:01'' [''markdown'']
                  [(''markdown'', JStr ''b_markdown.txt'')] (JStr []) (JStr []))]),
      clock = 2,
      log = []\<rparr>"

text \<open>A metadata file that holds the JSON text \<^verbatim>\<open>[]\<close>, and one that is not JSON.\<close>

definition list_store_world :: world where
  "list_store_world =
     \<lparr>dir_exists = True, files = Map.empty, metadata_file = Parsed (JArr []), clock = 0, log = []\<rparr>"

definition corrupt_store_world :: world where
  "corrupt_store_world =
     \<lparr>dir_exists = True, files = Map.empty,
      metadata_file = Unparseable (OtherError ''JSONDecodeError'' ''Expecting value: line 1 column 1 (char 0)''),
      clock = 0, log = []\<rparr>"

section \<open>Facts about the model\<close>

subsection \<open>Effects on the world\<close>

lemma path_join_SCRAPE_DIR:
  "path_join SCRAPE_DIR b = (if take 1 b = ''/'' then b else ''scraped_content/'' @ b)"
  by (simp add: path_join_def SCRAPE_DIR_def)

lemma emit_simps [simp]:
  "log (emit ev w) = log w @ [ev]" "files (emit ev w) = files w"
  "metadata_file (emit ev w) = metadata_file w" "clock (emit ev w) = clock w"
  "dir_exists (emit ev w) = dir_exists w"
  by (simp_all add: emit_def)

lemma write_file_simps [simp]:
  "log (write_file p t w) = log w @ [WriteFile p t]" "files (write_file p t w) = (files w)(p \<mapsto> t)"
  "metadata_file (write_file p t w) = metadata_file w" "clock (write_file p t w) = clock w"
  "dir_exists (write_file p t w) = dir_exists w"
  by (simp_all add: write_file_def)

lemma utcnow_simps [simp]:
  "fst (utcnow E w) = utcnow_isoformat E (clock w)"
  "log (snd (utcnow E w)) = log w" "files (snd (utcnow E w)) = files w"
  "metadata_file (snd (utcnow E w)) = metadata_file w" "clock (snd (utcnow E w)) = Suc (clock w)"
  "dir_exists (snd (utcnow E w)) = dir_exists w"
  by (simp_all add: utcnow_def)

subsection \<open>The loop over the formats\<close>

lemma write_formats_meta:
  "write_formats E p r fmts cf w = (res, w') \<Longrightarrow>
     metadata_file w' = metadata_file w \<and> clock w' = clock w \<and> dir_exists w' = dir_exists w"
  by (induction fmts arbitrary: cf w)
     (auto simp: Let_def split: sum.splits option.splits json.splits if_splits)

lemma write_formats_keeps_files:
  "write_formats E p r fmts cf w = (res, w') \<Longrightarrow> files w x \<noteq> None \<Longrightarrow> files w' x \<noteq> None"
  by (induction fmts arbitrary: cf w)
     (auto simp: Let_def split: sum.splits option.splits json.splits if_splits)

lemma write_formats_log:
  "write_formats E p r fmts cf w = (res, w') \<Longrightarrow>
     \<exists>evs. log w' = log w @ evs \<and> list_all is_file_write evs"
  by (induction fmts arbitrary: cf w)
     (fastforce simp: Let_def split: sum.splits option.splits json.splits if_splits)+

lemma take1_content_filename:
  "take 1 (content_filename p f) = (if p = [] then ''_'' else take 1 p)"
  by (cases p) (simp_all add: content_filename_def)

lemma content_path_inj: "content_path p f1 = content_path p f2 \<longleftrightarrow> f1 = f2"
proof
  assume eq: "content_path p f1 = content_path p f2"
  have t: "take 1 (content_filename p f1) = take 1 (content_filename p f2)"
    by (simp only: take1_content_filename)
  have "content_filename p f1 = content_filename p f2"
  proof (cases "take 1 (content_filename p f1) = ''/''")
    case True
    with t have "take 1 (content_filename p f2) = ''/''" by simp
    with True eq show ?thesis
      by (simp add: content_path_def path_join_SCRAPE_DIR)
  next
    case False
    with t have "take 1 (content_filename p f2) \<noteq> ''/''" by simp
    with False eq show ?thesis
      by (simp add: content_path_def path_join_SCRAPE_DIR)
  qed
  then show "f1 = f2" by (simp add: content_filename_def)
qed simp

lemma write_formats_success:
  "write_formats E p r fmts cf w = (Inr cf', w') \<Longrightarrow>
     log w' = log w @ map (\<lambda>fmt. WriteFile (content_path p fmt) (text_of (content_of r fmt)))
                          (filter (\<lambda>fmt. truthy (content_of r fmt)) fmts) \<and>
     (\<forall>fmt. map_of cf' fmt =
          (if fmt \<in> set fmts \<and> truthy (content_of r fmt) then Some (JStr (content_filename p fmt))
           else map_of cf fmt)) \<and>
     (\<forall>fmt \<in> set fmts. truthy (content_of r fmt) \<longrightarrow> (\<exists>s. content_of r fmt = JStr s))"
proof (induction fmts arbitrary: cf w)
  case Nil
  then show ?case by simp
next
  case (Cons fmt fmts)
  obtain c where c: "dict_get r fmt JNull = Inr c"
    using Cons.prems by (cases "dict_get r fmt JNull") auto
  then have co: "content_of r fmt = c" by (simp add: content_of_def)
  show ?case
  proof (cases "truthy c")
    case False
    with c Cons.prems have "write_formats E p r fmts cf w = (Inr cf', w')" by simp
    from Cons.IH[OF this] co False show ?thesis by auto
  next
    case True
    with c Cons.prems obtain s where s: "c = JStr s"
      by (cases c) (auto simp: Let_def split: option.splits)
    with True c Cons.prems
    have "write_formats E p r fmts (AList.update fmt (JStr (content_filename p fmt)) cf)
            (write_file (content_path p fmt) s w) = (Inr cf', w')"
      by (auto simp: Let_def content_path_def split: option.splits)
    from Cons.IH[OF this] co True s show ?thesis
      by (auto simp: update_conv')
  qed
qed

lemma write_formats_files:
  "write_formats E p r fmts cf w = (Inr cf', w') \<Longrightarrow>
     files w' x = (if \<exists>fmt \<in> set fmts. truthy (content_of r fmt) \<and> x = content_path p fmt
                   then Some (text_of (content_of r (THE fmt. x = content_path p fmt)))
                   else files w x)"
proof (induction fmts arbitrary: cf w)
  case Nil
  then show ?case by simp
next
  case (Cons fmt fmts)
  have the: "\<And>f. (THE g. content_path p f = content_path p g) = f"
    by (simp add: content_path_inj)
  obtain c where c: "dict_get r fmt JNull = Inr c"
    using Cons.prems by (cases "dict_get r fmt JNull") auto
  then have co: "content_of r fmt = c" by (simp add: content_of_def)
  show ?case
  proof (cases "truthy c")
    case False
    with c Cons.prems have "write_formats E p r fmts cf w = (Inr cf', w')" by simp
    from Cons.IH[OF this] co False show ?thesis by auto
  next
    case True
    with c Cons.prems obtain s where s: "c = JStr s"
      by (cases c) (auto simp: Let_def split: option.splits)
    with True c Cons.prems
    have "write_formats E p r fmts (AList.update fmt (JStr (content_filename p fmt)) cf)
            (write_file (content_path p fmt) s w) = (Inr cf', w')"
      by (auto simp: Let_def content_path_def split: option.splits)
    from Cons.IH[OF this] co True s show ?thesis
      by (auto simp: the content_path_inj)
  qed
qed

subsection \<open>Logs\<close>

lemma metadata_writes_append [simp]:
  "metadata_writes (xs @ ys) = metadata_writes xs @ metadata_writes ys"
  by (induction xs rule: metadata_writes.induct) simp_all

lemma scraped_urls_append [simp]:
  "scraped_urls (xs @ ys) = scraped_urls xs @ scraped_urls ys"
  by (induction xs rule: scraped_urls.induct) simp_all

lemma file_writes_only [simp]:
  "list_all is_file_write evs \<Longrightarrow> metadata_writes evs = [] \<and> scraped_urls evs = []"
proof (induction evs)
  case Nil
  then show ?case by simp
next
  case (Cons ev evs)
  then show ?case by (cases ev) simp_all
qed

subsection \<open>One attempt\<close>

lemma scrape_provider_success:
  assumes "scrape_provider E app fs p u w = (Inr r, w')"
  shows "\<exists>resp md cf w2 dom title desc.
     app u fs = Inr resp \<and> check_status E p u resp = Inr md \<and>
     write_formats E p resp fs [] (emit (Scrape u fs) w) = (Inr cf, w2) \<and>
     urlparse_netloc E u = Inr dom \<and>
     nested_field md ''title'' = Inr title \<and> nested_field md ''description'' = Inr desc \<and>
     w' = snd (utcnow E w2) \<and>
     r = success_record p u dom (utcnow_isoformat E (clock w2)) fs cf title desc"
  using assms
  by (auto simp: scrape_provider_def Let_def utcnow_def split: sum.splits prod.splits)

lemma scrape_provider_frame:
  assumes "scrape_provider E app fs p u w = (res, w')"
  shows "(\<exists>evs. log w' = log w @ Scrape u fs # evs \<and> list_all is_file_write evs) \<and>
     metadata_file w' = metadata_file w \<and> dir_exists w' = dir_exists w \<and>
     (\<forall>x. files w x \<noteq> None \<longrightarrow> files w' x \<noteq> None)"
proof (cases "app u fs")
  case (Inl e)
  with assms show ?thesis by (auto simp: scrape_provider_def Let_def)
next
  case (Inr resp)
  show ?thesis
  proof (cases "check_status E p u resp")
    case (Inl e)
    with Inr assms show ?thesis by (auto simp: scrape_provider_def Let_def)
  next
    case md: (Inr md)
    obtain r2 w2 where wf: "write_formats E p resp fs [] (emit (Scrape u fs) w) = (r2, w2)"
      by (cases "write_formats E p resp fs [] (emit (Scrape u fs) w)")
    from write_formats_meta[OF wf] write_formats_log[OF wf] write_formats_keeps_files[OF wf]
    have f2: "(\<exists>evs. log w2 = log w @ Scrape u fs # evs \<and> list_all is_file_write evs)"
      "metadata_file w2 = metadata_file w" "dir_exists w2 = dir_exists w"
      "\<forall>x. files w x \<noteq> None \<longrightarrow> files w2 x \<noteq> None"
      by auto
    have "w' = w2 \<or> w' = snd (utcnow E w2)"
      using assms Inr md wf
      by (auto simp: scrape_provider_def Let_def utcnow_def split: sum.splits prod.splits)
    with f2 show ?thesis by auto
  qed
qed

subsection \<open>One turn of the loop\<close>



lemma process_provider_dict:
  "process_provider E app fs p u (JObj kvs, ok) w =
     (case scrape_provider E app fs p u w of
        (Inr r, w') \<Rightarrow> (Inr (JObj (AList.update p r kvs), ok @ [p]), w')
      | (Inl e, w') \<Rightarrow>
          (case urlparse_netloc E u of
             Inl e' \<Rightarrow> (Inl e', w')
           | Inr d \<Rightarrow>
               (Inr (JObj (AList.update p
                       (failure_record p u d (utcnow_isoformat E (clock w')) fs (str_exn e)) kvs), ok),
                snd (utcnow E w'))))"
  by (simp add: process_provider_def try_scrape_def record_failure_def setitem_def utcnow_def
      split: prod.splits sum.splits)

lemma process_provider_frame:
  assumes "process_provider E app fs p u st w = (res, w')"
  shows "(\<exists>evs. log w' = log w @ Scrape u fs # evs \<and> list_all is_file_write evs) \<and>
     metadata_file w' = metadata_file w \<and> dir_exists w' = dir_exists w \<and>
     (\<forall>x. files w x \<noteq> None \<longrightarrow> files w' x \<noteq> None)"
proof -
  obtain r1 w1 where sp: "scrape_provider E app fs p u w = (r1, w1)"
    by (cases "scrape_provider E app fs p u w")
  have "w' = w1 \<or> w' = snd (utcnow E w1)"
    using assms sp
    by (auto simp: process_provider_def try_scrape_def record_failure_def utcnow_def
        split: sum.splits prod.splits)
  with scrape_provider_frame[OF sp] show ?thesis by auto
qed

subsection \<open>The loop over the providers\<close>

lemma scrape_loop_frame:
  "scrape_loop E app fs ws st w = (res, w') \<Longrightarrow>
     (\<exists>evs. log w' = log w @ evs \<and> metadata_writes evs = [] \<and>
        (case res of Inr st' \<Rightarrow> scraped_urls evs = map snd ws | Inl e \<Rightarrow> True)) \<and>
     metadata_file w' = metadata_file w \<and> dir_exists w' = dir_exists w \<and>
     (\<forall>x. files w x \<noteq> None \<longrightarrow> files w' x \<noteq> None)"
proof (induction ws arbitrary: st w)
  case Nil
  then show ?case by auto
next
  case (Cons pu ws)
  obtain p u where pu: "pu = (p, u)" by (cases pu)
  obtain r1 w1 where pp: "process_provider E app fs p u st w = (r1, w1)"
    by (cases "process_provider E app fs p u st w")
  from process_provider_frame[OF pp] obtain evs1 where
    f1: "log w1 = log w @ Scrape u fs # evs1" "list_all is_file_write evs1"
        "metadata_file w1 = metadata_file w" "dir_exists w1 = dir_exists w"
        "\<forall>x. files w x \<noteq> None \<longrightarrow> files w1 x \<noteq> None"
    by blast
  show ?case
  proof (cases r1)
    case (Inl e)
    with Cons.prems pu pp have "res = Inl e" "w' = w1" by auto
    with f1 show ?thesis by auto
  next
    case (Inr st1)
    with Cons.prems pu pp have "scrape_loop E app fs ws st1 w1 = (res, w')" by auto
    from Cons.IH[OF this] obtain evs2 where
      f2: "log w' = log w1 @ evs2" "metadata_writes evs2 = []"
          "(case res of Inr st' \<Rightarrow> scraped_urls evs2 = map snd ws | Inl e \<Rightarrow> True)"
          "metadata_file w' = metadata_file w1" "dir_exists w' = dir_exists w1"
          "\<forall>x. files w1 x \<noteq> None \<longrightarrow> files w' x \<noteq> None"
      by blast
    have a: "log w' = log w @ (Scrape u fs # evs1 @ evs2)" using f1 f2 by simp
    have b: "metadata_writes (Scrape u fs # evs1 @ evs2) = []" using f1 f2 by simp
    have c: "(case res of Inr st' \<Rightarrow> scraped_urls (Scrape u fs # evs1 @ evs2) = map snd (pu # ws)
                     | Inl e \<Rightarrow> True)"
      using f1 f2 pu by (cases res) simp_all
    have "\<exists>evs. log w' = log w @ evs \<and> metadata_writes evs = [] \<and>
        (case res of Inr st' \<Rightarrow> scraped_urls evs = map snd (pu # ws) | Inl e \<Rightarrow> True)"
    proof (intro exI conjI)
      show "log w' = log w @ (Scrape u fs # evs1 @ evs2)" by (fact a)
      show "metadata_writes (Scrape u fs # evs1 @ evs2) = []" by (fact b)
      show "(case res of Inr st' \<Rightarrow> scraped_urls (Scrape u fs # evs1 @ evs2) = map snd (pu # ws)
                     | Inl e \<Rightarrow> True)" by (fact c)
    qed
    then show ?thesis using f1 f2 by simp
  qed
qed

subsection \<open>Running the model\<close>

lemmas model_defs =
  scrape_websites_def resolve_api_key_def scrape_with_key_def load_metadata_def
  process_provider_def try_scrape_def record_failure_def scrape_provider_def check_status_def
  scrape_error_def nested_field_def dict_get_def setitem_def utcnow_def emit_def write_file_def
  content_filename_def path_join_SCRAPE_DIR metadata_path_def success_record_def failure_record_def
  format_value_def

lemma demo_run:
  "fst (scrape_websites demo_env demo_sites [''markdown'', ''html''] (Some ''k'') fresh_world) =
     Inr [''acme'', ''gamma'']"
  by (simp add: model_defs demo_env_def demo_app_def demo_netloc_def demo_sites_def fresh_world_def
      Let_def)


lemmas lookup_defs =
  extract_scraped_info_def read_entry_def dict_items_def dict_get_def dict_copy_def
  path_join_SCRAPE_DIR success_record_def failure_record_def not_found_def

subsection \<open>The environment variable is read once\<close>

lemma write_formats_getenv:
  "write_formats (E\<lparr>getenv := g\<rparr>) p r fmts cf w = write_formats E p r fmts cf w"
  by (induction fmts arbitrary: cf w)
     (simp_all add: Let_def cong: sum.case_cong option.case_cong json.case_cong if_cong)

lemmas case_congs = sum.case_cong prod.case_cong option.case_cong json.case_cong if_cong

lemma scrape_error_getenv:
  "scrape_error (E\<lparr>getenv := g\<rparr>) p u r = scrape_error E p u r"
  by (simp add: scrape_error_def format_value_def cong: case_congs)

lemma scrape_provider_getenv:
  "scrape_provider (E\<lparr>getenv := g\<rparr>) app fs p u w = scrape_provider E app fs p u w"
  by (simp add: scrape_provider_def write_formats_getenv check_status_def scrape_error_getenv
      utcnow_def Let_def cong: case_congs)

lemma process_provider_getenv:
  "process_provider (E\<lparr>getenv := g\<rparr>) app fs p u st w = process_provider E app fs p u st w"
  by (simp add: process_provider_def try_scrape_def record_failure_def scrape_provider_getenv
      utcnow_def cong: case_congs)

lemma scrape_loop_getenv:
  "scrape_loop (E\<lparr>getenv := g\<rparr>) app fs ws st w = scrape_loop E app fs ws st w"
  by (induction ws arbitrary: st w)
     (auto simp: process_provider_getenv split: prod.splits sum.splits)

lemma scrape_with_key_getenv:
  "scrape_with_key (E\<lparr>getenv := g\<rparr>) ws fs key w = scrape_with_key E ws fs key w"
  by (simp add: scrape_with_key_def scrape_loop_getenv Let_def cong: case_congs)

lemma scrape_with_key_log:
  "\<exists>evs. log (snd (scrape_with_key E ws fs key w)) = log w @ NewApp key # evs"
proof -
  obtain res w' where r: "scrape_websites E ws fs (Some key) w = (res, w')"
    by (cases "scrape_websites E ws fs (Some key) w")
  then have swk: "scrape_with_key E ws fs key w = (res, w')"
    by (simp add: scrape_websites_def resolve_api_key_def)
  let ?w1 = "emit (NewApp key) w"
  show ?thesis
  proof (cases "FirecrawlApp E key")
    case (Inl e)
    then show ?thesis by (simp add: scrape_with_key_def)
  next
    case app: (Inr app)
    let ?w2 = "?w1\<lparr>dir_exists := True\<rparr>"
    show ?thesis
    proof (cases "load_metadata ?w2")
      case (Inl e)
      with app show ?thesis by (simp add: scrape_with_key_def)
    next
      case sm0: (Inr sm0)
      obtain r3 w3 where l: "scrape_loop E app fs ws (sm0, []) ?w2 = (r3, w3)"
        by (cases "scrape_loop E app fs ws (sm0, []) ?w2")
      from scrape_loop_frame[OF l] obtain evs3 where f3: "log w3 = log ?w2 @ evs3" by blast
      from app sm0 l f3 show ?thesis
        by (auto simp: scrape_with_key_def split: sum.splits option.splits)
    qed
  qed
qed

subsection \<open>The client is built once, with the key\<close>

lemma write_formats_constructor:
  "write_formats (E\<lparr>FirecrawlApp := F\<rparr>) p r fmts cf w = write_formats E p r fmts cf w"
  by (induction fmts arbitrary: cf w)
     (simp_all add: Let_def cong: sum.case_cong option.case_cong json.case_cong if_cong)

lemma scrape_error_constructor:
  "scrape_error (E\<lparr>FirecrawlApp := F\<rparr>) p u r = scrape_error E p u r"
  by (simp add: scrape_error_def format_value_def cong: case_congs)

lemma scrape_provider_constructor:
  "scrape_provider (E\<lparr>FirecrawlApp := F\<rparr>) app fs p u w = scrape_provider E app fs p u w"
  by (simp add: scrape_provider_def write_formats_constructor check_status_def scrape_error_constructor
      utcnow_def Let_def cong: case_congs)

lemma process_provider_constructor:
  "process_provider (E\<lparr>FirecrawlApp := F\<rparr>) app fs p u st w = process_provider E app fs p u st w"
  by (simp add: process_provider_def try_scrape_def record_failure_def scrape_provider_constructor
      utcnow_def cong: case_congs)

lemma scrape_loop_constructor:
  "scrape_loop (E\<lparr>FirecrawlApp := F\<rparr>) app fs ws st w = scrape_loop E app fs ws st w"
  by (induction ws arbitrary: st w)
     (auto simp: process_provider_constructor split: prod.splits sum.splits)

lemma scrape_with_key_constructor:
  "F key = FirecrawlApp E key \<Longrightarrow>
     scrape_with_key (E\<lparr>FirecrawlApp := F\<rparr>) ws fs key w = scrape_with_key E ws fs key w"
  by (simp add: scrape_with_key_def scrape_loop_constructor Let_def cong: case_congs)

lemma scrape_with_key_refused:
  "FirecrawlApp E key = Inl e \<Longrightarrow> scrape_with_key E ws fs key w = (Inl e, emit (NewApp key) w)"
  by (simp add: scrape_with_key_def)

lemma scrape_with_key_built:
  "FirecrawlApp E key = Inr app \<Longrightarrow>
   scrape_with_key E ws fs key w =
     (let w2 = (emit (NewApp key) w)\<lparr>dir_exists := True\<rparr> in
      case load_metadata w2 of
        Inl e \<Rightarrow> (Inl e, w2)
      | Inr scraped_metadata \<Rightarrow>
          (case scrape_loop E app fs ws (scraped_metadata, []) w2 of
             (Inl e, w3) \<Rightarrow> (Inl e, w3)
           | (Inr (sm, successful_scrapes), w3) \<Rightarrow>
               (case open_w E metadata_path of
                  Some e \<Rightarrow> (Inl e, w3)
                | None \<Rightarrow>
                    (Inr successful_scrapes,
                     emit (WriteMetadata sm) (w3\<lparr>metadata_file := Parsed sm\<rparr>)))))"
  by (simp add: scrape_with_key_def Let_def)

lemma strict_env_fields:
  "getenv strict_env ''FIRECRAWL_API_KEY'' = Some ''env-key''"
  "FirecrawlApp strict_env [] = Inl (ValueError ''No API key provided'')"
  "FirecrawlApp strict_env ''env-key'' = Inr demo_app"
  "open_w strict_env metadata_path = None"
  "\<forall>site \<in> set demo_sites. \<exists>d. urlparse_netloc strict_env (snd site) = Inr d"
  by (simp_all add: strict_env_def demo_env_def demo_netloc_def demo_sites_def)

lemma strict_run:
  "fst (scrape_websites strict_env demo_sites [''markdown''] (Some ''env-key'') fresh_world) =
     Inr [''acme'', ''gamma'']"
  by (simp add: model_defs strict_env_def demo_env_def demo_app_def demo_netloc_def demo_sites_def
      fresh_world_def Let_def)

subsection \<open>The search of the lookup\<close>

lemma find_entry_first_match:
  "list_all (\<lambda>entry. is_dict (snd entry)) items \<Longrightarrow>
     find_entry identifier items = Inr (first_match identifier items)"
proof (induction items)
  case Nil
  then show ?case by (simp add: first_match_def)
next
  case (Cons entry items)
  obtain name data where e: "entry = (name, data)" by (cases entry)
  with Cons.prems obtain kvs where d: "data = JObj kvs" by (cases data) auto
  from Cons have ih: "find_entry identifier items = Inr (first_match identifier items)" by simp
  show ?case
    using e d ih
    by (auto simp: first_match_def entry_matches_def dict_get_def dict_copy_def)
qed

lemma extract_first_match:
  assumes "dir_exists w" "metadata_file w = Parsed (JObj items)"
    and "list_all (\<lambda>entry. is_dict (snd entry)) items"
  shows "extract_scraped_info w identifier =
     (case first_match identifier items of
        None \<Rightarrow> Inr (Message (not_found identifier))
      | Some data \<Rightarrow> reply_of identifier (read_entry w data))"
  using assms
  by (simp add: extract_scraped_info_def dict_items_def find_entry_first_match reply_of_def
      split: option.splits sum.splits)

lemma find_first:
  assumes "i < length xs" "P (xs ! i)" "\<forall>j<i. \<not> P (xs ! j)"
  shows "List.find P xs = Some (xs ! i)"
  using assms
proof (induction xs arbitrary: i)
  case Nil
  then show ?case by simp
next
  case (Cons x xs)
  show ?case
  proof (cases i)
    case 0
    with Cons.prems show ?thesis by simp
  next
    case (Suc k)
    with Cons.prems have "\<not> P x" by auto
    moreover from Suc Cons.prems have "List.find P xs = Some (xs ! k)"
      by (intro Cons.IH) auto
    ultimately show ?thesis using Suc by simp
  qed
qed

lemma first_match_is_first:
  assumes "first_match identifier items = Some data"
  shows "\<exists>i<length items. snd (items ! i) = data \<and> entry_matches identifier (items ! i) \<and>
           (\<forall>j<i. \<not> entry_matches identifier (items ! j))"
proof -
  from assms obtain entry where f: "List.find (entry_matches identifier) items = Some entry"
    and d: "snd entry = data"
    by (auto simp: first_match_def)
  from f obtain i where "i < length items" "entry_matches identifier (items ! i)"
    "entry = items ! i" "\<forall>j<i. \<not> entry_matches identifier (items ! j)"
    by (auto simp: find_Some_iff)
  with d show ?thesis by blast
qed

lemma unshadowed_lookups:
  assumes "dir_exists w" "metadata_file w = Parsed (JObj items)"
    and "list_all (\<lambda>entry. is_dict (snd entry)) items"
    and i: "i < length items" "items ! i = (provider_name, data)"
    and u: "dict_get data ''url'' JNull = Inr (JStr url)"
    and d: "dict_get data ''domain'' JNull = Inr (JStr domain)"
    and first: "\<forall>j<i. \<not> entry_matches provider_name (items ! j) \<and>
                   \<not> entry_matches url (items ! j) \<and>
                   \<not> entry_matches domain (items ! j)"
  shows "extract_scraped_info w provider_name = reply_of provider_name (read_entry w data)"
    and "extract_scraped_info w url = reply_of url (read_entry w data)"
    and "extract_scraped_info w domain = reply_of domain (read_entry w data)"
proof -
  have m: "first_match ident items = Some data"
    if "entry_matches ident (items ! i)" "\<forall>j<i. \<not> entry_matches ident (items ! j)"
    for ident
    using find_first[of i items "entry_matches ident"] that i
    by (simp add: first_match_def)
  have "first_match provider_name items = Some data"
    using i first by (intro m) (simp_all add: entry_matches_def)
  then show "extract_scraped_info w provider_name = reply_of provider_name (read_entry w data)"
    by (simp add: extract_first_match[OF assms(1-3)])
  have "first_match url items = Some data"
    using i u first by (intro m) (simp_all add: entry_matches_def)
  then show "extract_scraped_info w url = reply_of url (read_entry w data)"
    by (simp add: extract_first_match[OF assms(1-3)])
  have "first_match domain items = Some data"
    using i d first by (intro m) (simp_all add: entry_matches_def)
  then show "extract_scraped_info w domain = reply_of domain (read_entry w data)"
    by (simp add: extract_first_match[OF assms(1-3)])
qed

subsection \<open>Reading the content files\<close>

lemma universal_newlines_example:
  "universal_newlines [CHR ''a'', CHR 0x0D, CHR 0x0A, CHR ''b'', CHR 0x0D, CHR ''c'', CHR 0x0A] =
     [CHR ''a'', CHR 0x0A, CHR ''b'', CHR 0x0A, CHR ''c'', CHR 0x0A]"
  by simp

lemma universal_newlines_no_carriage_return:
  "CHR 0x0D \<notin> set s \<Longrightarrow> universal_newlines s = s"
  by (induction s rule: universal_newlines.induct) auto

lemma read_contents_shaped:
  "list_all (\<lambda>entry. is_str (snd entry)) names \<Longrightarrow> \<exists>r. read_contents w names acc = Inr r"
proof (induction names arbitrary: acc)
  case Nil
  then show ?case by simp
next
  case (Cons entry names)
  obtain fmt v where e: "entry = (fmt, v)" by (cases entry)
  with Cons.prems obtain name where v: "v = JStr name" by (cases v) auto
  from Cons have "\<exists>r. read_contents w names acc' = Inr r" for acc' by simp
  with e v show ?case by (cases "files w (path_join SCRAPE_DIR name)") auto
qed

lemma read_entry_shaped:
  assumes "record_shaped data"
  shows "\<exists>r. read_entry w data = Inr r"
proof -
  from assms obtain kvs where d: "data = JObj kvs"
    by (cases data) (auto simp: record_shaped_def)
  show ?thesis
  proof (cases "map_of kvs ''content_files''")
    case None
    with d show ?thesis by (simp add: read_entry_def dict_get_def)
  next
    case (Some cf)
    show ?thesis
    proof (cases "truthy cf")
      case False
      with d Some show ?thesis by (simp add: read_entry_def dict_get_def)
    next
      case True
      with assms d Some obtain names where n: "cf = JObj names"
        "list_all (\<lambda>entry. is_str (snd entry)) names"
        by (cases cf) (auto simp: record_shaped_def)
      from read_contents_shaped[OF n(2), of w "[]"] obtain r where
        "read_contents w names [] = Inr r" ..
      with d Some True n(1) show ?thesis
        by (cases r) (simp_all add: read_entry_def dict_get_def dict_items_def)
    qed
  qed
qed

lemma store_shaped_dicts:
  "list_all (\<lambda>entry. record_shaped (snd entry)) items \<Longrightarrow>
     list_all (\<lambda>entry. is_dict (snd entry)) items"
proof (induction items)
  case Nil
  then show ?case by simp
next
  case (Cons entry items)
  then have "record_shaped (snd entry)" by simp
  then have "is_dict (snd entry)" by (cases "snd entry") (auto simp: record_shaped_def)
  with Cons show ?case by simp
qed

lemma first_match_shaped:
  "list_all (\<lambda>entry. record_shaped (snd entry)) items \<Longrightarrow>
     first_match ident items = Some data \<Longrightarrow> record_shaped data"
  by (induction items) (auto simp: first_match_def split: if_splits)

lemma read_contents_missing:
  assumes "(fmt, JStr name) \<in> set names" "files w (path_join SCRAPE_DIR name) = None"
  shows "read_contents w names acc \<noteq> Inr (Some content)"
    and "list_all (\<lambda>entry. is_str (snd entry)) names \<Longrightarrow> read_contents w names acc = Inr None"
  using assms
proof (induction names arbitrary: acc)
  case Nil
  { case 1 then show ?case by simp }
  { case 2 then show ?case by simp }
next
  case (Cons entry names)
  obtain f v where e: "entry = (f, v)" by (cases entry)
  { case 1
    show ?case
    proof (cases v)
      case (JStr n)
      show ?thesis
      proof (cases "files w (path_join SCRAPE_DIR n)")
        case None
        with e JStr show ?thesis by simp
      next
        case (Some t)
        with 1 e JStr have "(fmt, JStr name) \<in> set names" by auto
        from Cons.IH(1)[OF this 1(2)] e JStr Some show ?thesis by simp
      qed
    qed (use e in simp_all) }
  { case 2
    from 2(1) e obtain n where v: "v = JStr n" by (cases v) auto
    show ?case
    proof (cases "files w (path_join SCRAPE_DIR n)")
      case None
      with e v show ?thesis by simp
    next
      case (Some t)
      with 2 e v have "(fmt, JStr name) \<in> set names" by auto
      moreover from 2(1) have "list_all (\<lambda>entry. is_str (snd entry)) names" by simp
      ultimately show ?thesis using Cons.IH(2) 2(3) e v Some by simp
    qed }
qed

subsection \<open>The assignment to the store\<close>







subsection \<open>When the url cannot be parsed\<close>

lemma process_provider_unparseable_url:
  assumes "urlparse_netloc E u = Inl e"
  shows "\<exists>w'. process_provider E app fs p u st w = (Inl e, w')"
proof (cases "scrape_provider E app fs p u w")
  case (Pair res w1)
  have "\<exists>e1. res = Inl e1"
    using Pair assms
    by (cases res)
       (auto simp: scrape_provider_def Let_def split: sum.splits prod.splits)
  then obtain e1 where "res = Inl e1" ..
  with Pair assms show ?thesis
    by (simp add: process_provider_def try_scrape_def record_failure_def)
qed

subsection \<open>The batch when every url can be parsed\<close>

lemma write_formats_outcome:
  "isl (fst (write_formats E p r fmts cf w)) = isl (fst (write_formats E p r fmts cf2 w2))"
proof (induction fmts arbitrary: cf cf2 w w2)
  case Nil
  show ?case by simp
next
  case (Cons fmt fmts)
  show ?case
  proof (cases "dict_get r fmt JNull")
    case (Inl e)
    then show ?thesis by simp
  next
    case (Inr c)
    show ?thesis
    proof (cases "truthy c")
      case False
      with Inr Cons.IH[of cf w cf2 w2] show ?thesis by simp
    next
      case True
      show ?thesis
      proof (cases "open_w E (path_join SCRAPE_DIR (content_filename p fmt))")
        case (Some e)
        with Inr True show ?thesis by (simp add: Let_def)
      next
        case None
        show ?thesis
        proof (cases c)
          case (JStr t)
          with Inr True None
            Cons.IH[of "AList.update fmt (JStr (content_filename p fmt)) cf"
                       "write_file (path_join SCRAPE_DIR (content_filename p fmt)) t w"
                       "AList.update fmt (JStr (content_filename p fmt)) cf2"
                       "write_file (path_join SCRAPE_DIR (content_filename p fmt)) t w2"]
          show ?thesis by (simp add: Let_def)
        qed (use Inr True None in \<open>simp_all add: Let_def\<close>)
      qed
    qed
  qed
qed

lemma scrape_provider_outcome:
  "isl (fst (scrape_provider E app fs p u w)) = isl (fst (scrape_provider E app fs p u w2))"
proof (cases "app u fs")
  case (Inl e)
  then show ?thesis by (simp add: scrape_provider_def)
next
  case (Inr resp)
  show ?thesis
  proof (cases "check_status E p u resp")
    case (Inl e)
    with Inr show ?thesis by (simp add: scrape_provider_def)
  next
    case md: (Inr md)
    obtain a wa where a: "write_formats E p resp fs [] (emit (Scrape u fs) w) = (a, wa)"
      by (cases "write_formats E p resp fs [] (emit (Scrape u fs) w)")
    obtain b wb where b: "write_formats E p resp fs [] (emit (Scrape u fs) w2) = (b, wb)"
      by (cases "write_formats E p resp fs [] (emit (Scrape u fs) w2)")
    from write_formats_outcome[of E p resp fs "[]" "emit (Scrape u fs) w" "[]" "emit (Scrape u fs) w2"] a b
    have ab: "isl a = isl b" by simp
    show ?thesis
      using Inr md a b ab
      by (cases a; cases b)
         (auto simp: scrape_provider_def Let_def utcnow_def split: sum.splits)
  qed
qed

lemma scrape_succeeds_iff:
  "scrape_succeeds E app fs (p, u) \<longleftrightarrow> (\<exists>r. fst (scrape_provider E app fs p u w) = Inr r)"
proof -
  have "scrape_succeeds E app fs (p, u) \<longleftrightarrow> \<not> isl (fst (scrape_provider E app fs p u fresh_world))"
    by (simp add: scrape_succeeds_def split: sum.splits)
  also have "\<dots> \<longleftrightarrow> \<not> isl (fst (scrape_provider E app fs p u w))"
    using scrape_provider_outcome[of E app fs p u fresh_world w] by simp
  also have "\<dots> \<longleftrightarrow> (\<exists>r. fst (scrape_provider E app fs p u w) = Inr r)"
    by (cases "fst (scrape_provider E app fs p u w)") simp_all
  finally show ?thesis .
qed

lemma scrape_loop_absorbs_failures:
  assumes "\<forall>site \<in> set ws. \<exists>d. urlparse_netloc E (snd site) = Inr d"
  shows "\<exists>new w'.
     scrape_loop E app fs ws (JObj kvs, ok) w =
       (Inr (JObj new, ok @ map fst (filter (scrape_succeeds E app fs) ws)), w') \<and>
     fst ` set new = fst ` set kvs \<union> fst ` set ws"
  using assms
proof (induction ws arbitrary: kvs ok w)
  case Nil
  then show ?case by simp
next
  case (Cons site ws)
  obtain p u where site: "site = (p, u)" by (cases site)
  from Cons.prems site obtain d where d: "urlparse_netloc E u = Inr d" by auto
  obtain res w1 where sp: "scrape_provider E app fs p u w = (res, w1)"
    by (cases "scrape_provider E app fs p u w")
  from Cons.prems have rest: "\<forall>site \<in> set ws. \<exists>d. urlparse_netloc E (snd site) = Inr d" by simp
  show ?case
  proof (cases res)
    case (Inr r)
    with sp have su: "scrape_succeeds E app fs (p, u)"
      by (simp add: scrape_succeeds_iff[of E app fs p u w])
    from sp Inr have pp: "process_provider E app fs p u (JObj kvs, ok) w =
        (Inr (JObj (AList.update p r kvs), ok @ [p]), w1)"
      by (simp add: process_provider_dict)
    from Cons.IH[OF rest, of "AList.update p r kvs" "ok @ [p]" w1]
    obtain new w' where
      "scrape_loop E app fs ws (JObj (AList.update p r kvs), ok @ [p]) w1 =
         (Inr (JObj new, (ok @ [p]) @ map fst (filter (scrape_succeeds E app fs) ws)), w')"
      "fst ` set new = fst ` set (AList.update p r kvs) \<union> fst ` set ws"
      by blast
    with site pp su show ?thesis by (auto simp: dom_update)
  next
    case (Inl e)
    with sp have su: "\<not> scrape_succeeds E app fs (p, u)"
      by (simp add: scrape_succeeds_iff[of E app fs p u w])
    let ?r = "failure_record p u d (utcnow_isoformat E (clock w1)) fs (str_exn e)"
    from sp Inl d have pp: "process_provider E app fs p u (JObj kvs, ok) w =
        (Inr (JObj (AList.update p ?r kvs), ok), snd (utcnow E w1))"
      by (simp add: process_provider_dict)
    from Cons.IH[OF rest, of "AList.update p ?r kvs" ok "snd (utcnow E w1)"]
    obtain new w' where
      "scrape_loop E app fs ws (JObj (AList.update p ?r kvs), ok) (snd (utcnow E w1)) =
         (Inr (JObj new, ok @ map fst (filter (scrape_succeeds E app fs) ws)), w')"
      "fst ` set new = fst ` set (AList.update p ?r kvs) \<union> fst ` set ws"
      by blast
    with site pp su show ?thesis by (auto simp: dom_update)
  qed
qed

lemma scrape_websites_returns:
  assumes key: "resolve_api_key E api_key = Inr key"
    and app: "FirecrawlApp E key = Inr app"
    and store: "metadata_file w = Absent \<and> old = [] \<or> metadata_file w = Parsed (JObj old)"
    and urls: "\<forall>site \<in> set ws. \<exists>d. urlparse_netloc E (snd site) = Inr d"
    and opens: "open_w E metadata_path = None"
  shows "\<exists>new w'.
     scrape_websites E ws fs api_key w =
       (Inr (map fst (filter (scrape_succeeds E app fs) ws)), w') \<and>
     metadata_file w' = Parsed (JObj new) \<and>
     fst ` set new = fst ` set old \<union> fst ` set ws"
proof -
  let ?w2 = "(emit (NewApp key) w)\<lparr>dir_exists := True\<rparr>"
  from store have ld: "load_metadata ?w2 = Inr (JObj old)"
    by (auto simp: load_metadata_def)
  from scrape_loop_absorbs_failures[OF urls, of app fs old "[]" ?w2]
  obtain new w3 where
    l: "scrape_loop E app fs ws (JObj old, []) ?w2 =
          (Inr (JObj new, map fst (filter (scrape_succeeds E app fs) ws)), w3)"
    and k: "fst ` set new = fst ` set old \<union> fst ` set ws"
    by auto
  have "scrape_websites E ws fs api_key w =
       (Inr (map fst (filter (scrape_succeeds E app fs) ws)),
        emit (WriteMetadata (JObj new)) (w3\<lparr>metadata_file := Parsed (JObj new)\<rparr>))"
    using key app ld l opens by (simp add: scrape_websites_def scrape_with_key_def)
  with k show ?thesis by simp
qed

subsection \<open>The shape of the store that the program writes\<close>

lemma update_values:
  "list_all (\<lambda>entry. P (snd entry)) al \<Longrightarrow> P v \<Longrightarrow>
     list_all (\<lambda>entry. P (snd entry)) (AList.update k v al)"
  by (induction al) auto

lemma write_formats_names:
  "write_formats E p r fmts cf w = (Inr cf', w') \<Longrightarrow>
     list_all (\<lambda>entry. is_str (snd entry)) cf \<Longrightarrow>
     list_all (\<lambda>entry. is_str (snd entry)) cf'"
proof (induction fmts arbitrary: cf w)
  case Nil
  then show ?case by simp
next
  case (Cons fmt fmts)
  obtain c where c: "dict_get r fmt JNull = Inr c"
    using Cons.prems(1) by (cases "dict_get r fmt JNull") auto
  show ?case
  proof (cases "truthy c")
    case False
    with c Cons.prems(1) have "write_formats E p r fmts cf w = (Inr cf', w')" by simp
    from Cons.IH[OF this Cons.prems(2)] show ?thesis .
  next
    case True
    with c Cons.prems(1) obtain s where s: "c = JStr s"
      by (cases c) (auto simp: Let_def split: option.splits)
    let ?cf = "AList.update fmt (JStr (content_filename p fmt)) cf"
    from True c s Cons.prems(1)
    have "write_formats E p r fmts ?cf
            (write_file (path_join SCRAPE_DIR (content_filename p fmt)) s w) = (Inr cf', w')"
      by (auto simp: Let_def split: option.splits)
    moreover have "list_all (\<lambda>entry. is_str (snd entry)) ?cf"
      using Cons.prems(2) by (intro update_values) simp_all
    ultimately show ?thesis by (rule Cons.IH)
  qed
qed

lemma success_record_shaped:
  "list_all (\<lambda>entry. is_str (snd entry)) cf \<Longrightarrow>
     record_shaped (success_record p u d t fs cf ti de)"
  by (simp add: record_shaped_def success_record_def)

lemma failure_record_shaped: "record_shaped (failure_record p u d t fs m)"
  by (simp add: record_shaped_def failure_record_def)

lemma process_provider_shaped:
  assumes "process_provider E app fs p u (JObj kvs, ok) w = (Inr (sm, ok'), w')"
    and "store_shaped (JObj kvs)"
  shows "store_shaped sm"
proof (cases "scrape_provider E app fs p u w")
  case (Pair res w1)
  show ?thesis
  proof (cases res)
    case (Inr r)
    from scrape_provider_success[OF Pair[unfolded Inr]]
    obtain resp cf d ti de and w2 :: world where
      wf: "write_formats E p resp fs [] (emit (Scrape u fs) w) = (Inr cf, w2)"
      and r: "r = success_record p u d (utcnow_isoformat E (clock w2)) fs cf ti de"
      by blast
    from write_formats_names[OF wf] have "list_all (\<lambda>entry. is_str (snd entry)) cf" by simp
    then have "record_shaped r" unfolding r by (rule success_record_shaped)
    moreover from assms(1) Pair Inr have "sm = JObj (AList.update p r kvs)"
      by (simp add: process_provider_dict)
    ultimately show ?thesis
      using assms(2) by (simp add: store_shaped_def update_values)
  next
    case (Inl e)
    with assms(1) Pair obtain d where d: "urlparse_netloc E u = Inr d"
      by (cases "urlparse_netloc E u") (simp_all add: process_provider_dict)
    with assms(1) Pair Inl
    have "sm = JObj (AList.update p
                (failure_record p u d (utcnow_isoformat E (clock w1)) fs (str_exn e)) kvs)"
      by (simp add: process_provider_dict)
    then show ?thesis
      using assms(2) by (simp add: store_shaped_def update_values failure_record_shaped)
  qed
qed

lemma scrape_loop_shaped:
  "scrape_loop E app fs ws (JObj kvs, ok) w = (Inr (sm, ok'), w') \<Longrightarrow>
     store_shaped (JObj kvs) \<Longrightarrow> store_shaped sm"
proof (induction ws arbitrary: kvs ok w)
  case Nil
  then show ?case by auto
next
  case (Cons site ws)
  obtain p u where site: "site = (p, u)" by (cases site)
  obtain r1 w1 where pp: "process_provider E app fs p u (JObj kvs, ok) w = (r1, w1)"
    by (cases "process_provider E app fs p u (JObj kvs, ok) w")
  with Cons.prems(1) site obtain sm1 ok1 where r1: "r1 = Inr (sm1, ok1)"
    by (cases r1) auto
  from process_provider_shaped[OF pp[unfolded r1] Cons.prems(2)] have sh: "store_shaped sm1" .
  then obtain kvs1 where k: "sm1 = JObj kvs1" by (cases sm1) (auto simp: store_shaped_def)
  from Cons.prems(1) site pp r1 k
  have "scrape_loop E app fs ws (JObj kvs1, ok1) w1 = (Inr (sm, ok'), w')" by simp
  from Cons.IH[OF this sh[unfolded k]] show ?case .
qed

lemma scrape_websites_shaped:
  assumes "scrape_websites E ws fs api_key w = (Inr oks, w')"
    and "metadata_file w = Absent \<or> (\<exists>old. metadata_file w = Parsed (JObj old) \<and> store_shaped (JObj old))"
  shows "\<exists>sm. metadata_file w' = Parsed sm \<and> store_shaped sm"
proof -
  from assms(2) obtain old where old:
    "metadata_file w = Absent \<and> old = [] \<or> metadata_file w = Parsed (JObj old)"
    "store_shaped (JObj old)"
    by (auto simp: store_shaped_def)
  from assms(1) obtain key where swk: "scrape_with_key E ws fs key w = (Inr oks, w')"
    by (cases "resolve_api_key E api_key") (auto simp: scrape_websites_def)
  then obtain app where app: "FirecrawlApp E key = Inr app"
    by (cases "FirecrawlApp E key") (auto simp: scrape_with_key_def)
  let ?w2 = "(emit (NewApp key) w)\<lparr>dir_exists := True\<rparr>"
  from old(1) have ld: "load_metadata ?w2 = Inr (JObj old)"
    by (auto simp: load_metadata_def)
  obtain r3 w3 where l: "scrape_loop E app fs ws (JObj old, []) ?w2 = (r3, w3)"
    by (cases "scrape_loop E app fs ws (JObj old, []) ?w2")
  with swk app ld obtain sm ok3 where r3: "r3 = Inr (sm, ok3)"
    by (cases r3) (auto simp: scrape_with_key_def)
  from swk app ld l r3 have w': "metadata_file w' = Parsed sm"
    by (cases "open_w E metadata_path") (auto simp: scrape_with_key_def)
  from scrape_loop_shaped[OF l[unfolded r3] old(2)] w' show ?thesis by auto
qed

section \<open>An exception that leaves the batch\<close>

text \<open>
  Claim C1 says that an exception raised for one provider is caught at that provider,
  recorded as a failure record and never leaves the batch, that the remaining providers
  are still processed, that the returned list holds exactly the providers whose scrape
  succeeded, and that the store has a record for every provider of the batch. The code
  breaks it: the handler of line 126 computes \<^verbatim>\<open>urlparse(url).netloc\<close> again, outside
  any \<^verbatim>\<open>try\<close>. When \<^verbatim>\<open>urlparse\<close> raises on a provider's url, every turn of the loop on
  that provider raises (\<open>process_provider_unparseable_url\<close>), whatever the collaborator
  did. In the batch below the second url has an unmatched bracket: the call raises
  \<^verbatim>\<open>ValueError\<close>, the metadata file is never written, so the record of the first provider,
  whose scrape succeeded and whose file is on disk, is lost, and the third provider is
  never requested. When \<^verbatim>\<open>urlparse\<close> accepts every url of the batch and the store is a
  dictionary, the call does what the claim says (\<open>scrape_loop_absorbs_failures\<close>,
  \<open>scrape_websites_returns\<close>).
\<close>

theorem unparseable_url_aborts_batch:
  "fst (scrape_websites demo_env
          [(''acme'', ''http://a.io/p''), (''bad'', ''http://[::1''), (''gamma'', ''http://c.io'')]
          [''markdown''] (Some ''k'') fresh_world) = Inl (ValueError ''Invalid IPv6 URL'') \<and>
   metadata_file (snd (scrape_websites demo_env
          [(''acme'', ''http://a.io/p''), (''bad'', ''http://[::1''), (''gamma'', ''http://c.io'')]
          [''markdown''] (Some ''k'') fresh_world)) = Absent \<and>
   log (snd (scrape_websites demo_env
          [(''acme'', ''http://a.io/p''), (''bad'', ''http://[::1''), (''gamma'', ''http://c.io'')]
          [''markdown''] (Some ''k'') fresh_world)) =
     [NewApp ''k'',
      Scrape ''http://a.io/p'' [''markdown''],
      WriteFile ''scraped_content/acme_markdown.txt'' ''# A'',
      Scrape ''http://[::1'' [''markdown'']]"
  by (simp add: model_defs demo_env_def demo_app_def demo_netloc_def fresh_world_def Let_def)

section \<open>One record for each provider, overwritten\<close>



section \<open>Lookup by name, url and domain\<close>

text \<open>
  Claim C3, as amended. In a store whose entries are dictionaries the lookup is the
  linear search: it answers from the first entry, in the order of the store, whose key, url
  or domain equals the identifier, and with the not-found message when there is none.
  For an entry that no earlier entry shadows (no entry before it matches its provider
  name, its url or its domain), the lookups by the three identifiers answer from that
  entry: they return the same payload when its files can be read, and otherwise the same
  exception or the not-found message of the identifier. The claim as stated, for every
  stored record, fails when an earlier record has the same url or domain: the
  counterexample is a store of two providers on one domain.
\<close>

theorem lookup_returns_first_match:
  assumes "dir_exists w" "metadata_file w = Parsed (JObj items)"
    and "list_all (\<lambda>entry. is_dict (snd entry)) items"
  shows "(\<forall>identifier.
            extract_scraped_info w identifier =
              (case first_match identifier items of
                 None \<Rightarrow> Inr (Message (not_found identifier))
               | Some data \<Rightarrow> reply_of identifier (read_entry w data))) \<and>
         (\<forall>identifier data. first_match identifier items = Some data \<longrightarrow>
            (\<exists>i<length items. snd (items ! i) = data \<and> entry_matches identifier (items ! i) \<and>
               (\<forall>j<i. \<not> entry_matches identifier (items ! j)))) \<and>
         (\<forall>i provider_name data url domain.
            i < length items \<and> items ! i = (provider_name, data) \<and>
            dict_get data ''url'' JNull = Inr (JStr url) \<and>
            dict_get data ''domain'' JNull = Inr (JStr domain) \<and>
            (\<forall>j<i. \<not> entry_matches provider_name (items ! j) \<and>
                   \<not> entry_matches url (items ! j) \<and>
                   \<not> entry_matches domain (items ! j)) \<longrightarrow>
            extract_scraped_info w provider_name = reply_of provider_name (read_entry w data) \<and>
            extract_scraped_info w url = reply_of url (read_entry w data) \<and>
            extract_scraped_info w domain = reply_of domain (read_entry w data) \<and>
            (\<forall>result. read_entry w data = Inr (Some result) \<longrightarrow>
               extract_scraped_info w provider_name = Inr (JsonText result) \<and>
               extract_scraped_info w url = Inr (JsonText result) \<and>
               extract_scraped_info w domain = Inr (JsonText result)))"
proof (intro conjI allI impI)
  fix ident
  show "extract_scraped_info w ident =
          (case first_match ident items of
             None \<Rightarrow> Inr (Message (not_found ident))
           | Some data \<Rightarrow> reply_of ident (read_entry w data))"
    by (rule extract_first_match[OF assms])
next
  fix ident data
  assume "first_match ident items = Some data"
  then show "\<exists>i<length items. snd (items ! i) = data \<and> entry_matches ident (items ! i) \<and>
               (\<forall>j<i. \<not> entry_matches ident (items ! j))"
    by (rule first_match_is_first)
next
  fix i provider_name data url domain
  assume h: "i < length items \<and> items ! i = (provider_name, data) \<and>
            dict_get data ''url'' JNull = Inr (JStr url) \<and>
            dict_get data ''domain'' JNull = Inr (JStr domain) \<and>
            (\<forall>j<i. \<not> entry_matches provider_name (items ! j) \<and>
                   \<not> entry_matches url (items ! j) \<and>
                   \<not> entry_matches domain (items ! j))"
  then have l: "extract_scraped_info w provider_name = reply_of provider_name (read_entry w data)"
    "extract_scraped_info w url = reply_of url (read_entry w data)"
    "extract_scraped_info w domain = reply_of domain (read_entry w data)"
    using unshadowed_lookups[OF assms, of i provider_name data url domain] by blast+
  show "extract_scraped_info w provider_name = reply_of provider_name (read_entry w data)"
    "extract_scraped_info w url = reply_of url (read_entry w data)"
    "extract_scraped_info w domain = reply_of domain (read_entry w data)"
    by (fact l)+
  fix result
  assume "read_entry w data = Inr (Some result)"
  with l show "extract_scraped_info w provider_name = Inr (JsonText result)"
    "extract_scraped_info w url = Inr (JsonText result)"
    "extract_scraped_info w domain = Inr (JsonText result)"
    by (simp_all add: reply_of_def)
qed

theorem lookup_shared_domain_counterexample:
  "metadata_file shared_domain_world = Parsed (JObj
     [(''a'', success_record ''a'' ''http://x.io/1'' ''x.io'' ''2025-10-23T00:44:00'' [''markdown'']
               [(''markdown'', JStr ''a_markdown.txt'')] (JStr []) (JStr [])),
      (''b'', success_record ''b'' ''http://x.io/2'' ''x.io'' ''2025-10-23T00:44:01'' [''markdown'']
               [(''markdown'', JStr ''b_markdown.txt'')] (JStr []) (JStr []))]) \<and>
   extract_scraped_info shared_domain_world ''b'' =
     Inr (JsonText (JObj [(''content'', JObj [(''markdown'', JStr ''# B'')])])) \<and>
   extract_scraped_info shared_domain_world ''http://x.io/2'' =
     Inr (JsonText (JObj [(''content'', JObj [(''markdown'', JStr ''# B'')])])) \<and>
   extract_scraped_info shared_domain_world ''x.io'' =
     Inr (JsonText (JObj [(''content'', JObj [(''markdown'', JStr ''# A'')])]))"
  by (simp add: shared_domain_world_def lookup_defs)

theorem lookup_returns_first_match_witness:
  "extract_scraped_info acme_world ''acme'' =
     Inr (JsonText (JObj [(''content'', JObj [(''markdown'', JStr ''# Acme'')])])) \<and>
   extract_scraped_info acme_world ''https://acme.example.com/page'' =
     Inr (JsonText (JObj [(''content'', JObj [(''markdown'', JStr ''# Acme'')])])) \<and>
   extract_scraped_info acme_world ''acme.example.com'' =
     Inr (JsonText (JObj [(''content'', JObj [(''markdown'', JStr ''# Acme'')])]))"
proof -
  let ?data = "success_record ''acme'' ''https://acme.example.com/page'' ''acme.example.com''
                     ''2025-10-23T00:44:00'' [''markdown'', ''html'']
                     [(''markdown'', JStr ''acme_markdown.txt'')] (JStr []) (JStr [])"
  have a: "dir_exists acme_world" "metadata_file acme_world = Parsed (JObj [(''acme'', ?data)])"
    "list_all (\<lambda>entry. is_dict (snd entry)) [(''acme'', ?data)]"
    by (simp_all add: acme_world_def success_record_def)
  have r: "read_entry acme_world ?data =
     Inr (Some (JObj [(''content'', JObj [(''markdown'', JStr ''# Acme'')])]))"
    by (simp add: acme_world_def lookup_defs)
  have u: "dict_get ?data ''url'' JNull = Inr (JStr ''https://acme.example.com/page'')"
    "dict_get ?data ''domain'' JNull = Inr (JStr ''acme.example.com'')"
    by (simp_all add: lookup_defs)
  from lookup_returns_first_match[OF a, THEN conjunct2, THEN conjunct2, rule_format,
      of 0 "''acme''" ?data "''https://acme.example.com/page''" "''acme.example.com''"] r u
  show ?thesis by (simp add: reply_of_def)
qed

section \<open>The content files of a success record\<close>

text \<open>
  Claim C4. When the body of the \<^verbatim>\<open>try\<close> builds a success record, the keys of its
  \<^verbatim>\<open>content_files\<close> are requested formats, and a format is a key exactly when it is
  requested and the response holds a truthy content for it. Such a content is a string,
  the key maps to \<^verbatim>\<open>{provider_name}_{format}.txt\<close>, and the file that
  \<^verbatim>\<open>os.path.join\<close> names for it holds the content afterwards. The effects of the attempt
  are the request and one file write for each such format, in the order of the formats;
  every other path keeps what it held. For a provider name that does not start with a
  slash the path lies in the output directory.
\<close>

theorem content_files_follow_response:
  assumes "scrape_provider E app formats provider_name url w = (Inr record, w')"
  shows "\<exists>scrape_result content_files.
     app url formats = Inr scrape_result \<and>
     dict_get record ''content_files'' JNull = Inr (JObj content_files) \<and>
     fst ` set content_files \<subseteq> set formats \<and>
     (\<forall>fmt. fmt \<in> fst ` set content_files \<longleftrightarrow>
            fmt \<in> set formats \<and> truthy (content_of scrape_result fmt)) \<and>
     (\<forall>fmt. fmt \<in> set formats \<and> truthy (content_of scrape_result fmt) \<longrightarrow>
            map_of content_files fmt = Some (JStr (content_filename provider_name fmt)) \<and>
            content_of scrape_result fmt = JStr (text_of (content_of scrape_result fmt)) \<and>
            files w' (content_path provider_name fmt) = Some (text_of (content_of scrape_result fmt))) \<and>
     log w' = log w @ Scrape url formats #
        map (\<lambda>fmt. WriteFile (content_path provider_name fmt) (text_of (content_of scrape_result fmt)))
            (filter (\<lambda>fmt. truthy (content_of scrape_result fmt)) formats) \<and>
     (\<forall>path. (\<forall>fmt \<in> set formats. truthy (content_of scrape_result fmt) \<longrightarrow>
                  path \<noteq> content_path provider_name fmt) \<longrightarrow> files w' path = files w path) \<and>
     (\<forall>fmt. take 1 provider_name \<noteq> ''/'' \<longrightarrow>
            content_path provider_name fmt = ''scraped_content/'' @ provider_name @ ''_'' @ fmt @ ''.txt'')"
proof -
  from scrape_provider_success[OF assms] obtain resp md cf dmn title desc and w2 :: world where
    s: "app url formats = Inr resp"
       "write_formats E provider_name resp formats [] (emit (Scrape url formats) w) = (Inr cf, w2)"
       "w' = snd (utcnow E w2)"
       "record = success_record provider_name url dmn (utcnow_isoformat E (clock w2)) formats cf title desc"
    by blast
  let ?written = "\<lambda>fmt. fmt \<in> set formats \<and> truthy (content_of resp fmt)"
  from write_formats_success[OF s(2)]
  have lg: "log w2 = log w @ Scrape url formats #
        map (\<lambda>fmt. WriteFile (content_path provider_name fmt) (text_of (content_of resp fmt)))
            (filter (\<lambda>fmt. truthy (content_of resp fmt)) formats)"
    and mp: "\<And>fmt. map_of cf fmt =
        (if ?written fmt then Some (JStr (content_filename provider_name fmt)) else None)"
    and str: "\<And>fmt. ?written fmt \<Longrightarrow> \<exists>s. content_of resp fmt = JStr s"
    by auto
  have fl: "files w2 x =
       (if \<exists>fmt \<in> set formats. truthy (content_of resp fmt) \<and> x = content_path provider_name fmt
        then Some (text_of (content_of resp (THE fmt. x = content_path provider_name fmt)))
        else files w x)" for x
    using write_formats_files[OF s(2), of x] by (simp only: emit_simps)
  have the: "\<And>f. (THE g. content_path provider_name f = content_path provider_name g) = f"
    by (simp add: content_path_inj)
  have keys: "\<forall>fmt. fmt \<in> fst ` set cf \<longleftrightarrow> ?written fmt"
  proof
    fix fmt
    have "fmt \<in> fst ` set cf \<longleftrightarrow> map_of cf fmt \<noteq> None"
      by (simp add: map_of_eq_None_iff)
    then show "fmt \<in> fst ` set cf \<longleftrightarrow> ?written fmt" by (simp add: mp)
  qed
  have a: "dict_get record ''content_files'' JNull = Inr (JObj cf)"
    by (simp add: s(4) success_record_def dict_get_def)
  have b: "fst ` set cf \<subseteq> set formats" using keys by blast
  have c: "\<forall>fmt. ?written fmt \<longrightarrow>
            map_of cf fmt = Some (JStr (content_filename provider_name fmt)) \<and>
            content_of resp fmt = JStr (text_of (content_of resp fmt)) \<and>
            files w' (content_path provider_name fmt) = Some (text_of (content_of resp fmt))"
  proof (intro allI impI)
    fix fmt assume wr: "?written fmt"
    from str[OF wr] obtain t where "content_of resp fmt = JStr t" ..
    then have "content_of resp fmt = JStr (text_of (content_of resp fmt))" by simp
    moreover have "files w' (content_path provider_name fmt) = Some (text_of (content_of resp fmt))"
      using wr by (auto simp: s(3) fl the)
    ultimately show "map_of cf fmt = Some (JStr (content_filename provider_name fmt)) \<and>
            content_of resp fmt = JStr (text_of (content_of resp fmt)) \<and>
            files w' (content_path provider_name fmt) = Some (text_of (content_of resp fmt))"
      using wr by (simp add: mp)
  qed
  have d: "log w' = log w @ Scrape url formats #
        map (\<lambda>fmt. WriteFile (content_path provider_name fmt) (text_of (content_of resp fmt)))
            (filter (\<lambda>fmt. truthy (content_of resp fmt)) formats)"
    by (simp add: s(3) lg)
  have e: "\<forall>path. (\<forall>fmt \<in> set formats. truthy (content_of resp fmt) \<longrightarrow>
                  path \<noteq> content_path provider_name fmt) \<longrightarrow> files w' path = files w path"
  proof (intro allI impI)
    fix path
    assume "\<forall>fmt \<in> set formats. truthy (content_of resp fmt) \<longrightarrow>
                  path \<noteq> content_path provider_name fmt"
    then have "\<not> (\<exists>fmt \<in> set formats. truthy (content_of resp fmt) \<and>
                  path = content_path provider_name fmt)" by blast
    with fl[of path] have "files w2 path = files w path" by (simp only: if_False)
    then show "files w' path = files w path" by (simp add: s(3))
  qed
  have f: "\<forall>fmt. take 1 provider_name \<noteq> ''/'' \<longrightarrow>
            content_path provider_name fmt = ''scraped_content/'' @ provider_name @ ''_'' @ fmt @ ''.txt''"
    by (cases provider_name)
       (simp_all add: content_path_def path_join_SCRAPE_DIR content_filename_def)
  show ?thesis
  proof (intro exI conjI)
    show "app url formats = Inr resp" by (fact s(1))
    show "dict_get record ''content_files'' JNull = Inr (JObj cf)" by (fact a)
    show "fst ` set cf \<subseteq> set formats" by (fact b)
    show "\<forall>fmt. fmt \<in> fst ` set cf \<longleftrightarrow> ?written fmt" by (fact keys)
  qed (fact c d e f)+
qed

theorem content_files_follow_response_witness:
  "\<exists>record w' content_files.
     scrape_provider demo_env demo_app [''markdown'', ''html''] ''gamma'' ''http://c.io'' fresh_world =
       (Inr record, w') \<and>
     dict_get record ''content_files'' JNull = Inr (JObj content_files) \<and>
     fst ` set content_files = {''markdown''} \<and>
     files w' ''scraped_content/gamma_markdown.txt'' = Some ''# C'' \<and>
     files w' ''scraped_content/gamma_html.txt'' = None \<and>
     log w' = [Scrape ''http://c.io'' [''markdown'', ''html''],
               WriteFile ''scraped_content/gamma_markdown.txt'' ''# C'']"
proof -
  let ?run = "scrape_provider demo_env demo_app [''markdown'', ''html''] ''gamma'' ''http://c.io'' fresh_world"
  have "isl (fst ?run) = False"
    by (simp add: model_defs demo_env_def demo_app_def demo_netloc_def fresh_world_def Let_def)
  then obtain rcd where "fst ?run = Inr rcd" by (cases "fst ?run") auto
  then have run: "?run = (Inr rcd, snd ?run)" by (metis prod.collapse)
  have app: "demo_app ''http://c.io'' [''markdown'', ''html''] =
     Inr (JObj [(''markdown'', JStr ''# C''), (''html'', JNull),
                (''metadata'', JObj [(''status_code'', JNum 200)])])"
    by (simp add: demo_app_def)
  let ?resp = "JObj [(''markdown'', JStr ''# C''), (''html'', JNull),
                (''metadata'', JObj [(''status_code'', JNum 200)])]"
  obtain sr cf where
    c: "demo_app ''http://c.io'' [''markdown'', ''html''] = Inr sr"
       "dict_get rcd ''content_files'' JNull = Inr (JObj cf)"
       "fst ` set cf \<subseteq> set [''markdown'', ''html'']"
       "\<forall>fmt. fmt \<in> fst ` set cf \<longleftrightarrow>
            fmt \<in> set [''markdown'', ''html''] \<and> truthy (content_of sr fmt)"
       "\<forall>fmt. fmt \<in> set [''markdown'', ''html''] \<and> truthy (content_of sr fmt) \<longrightarrow>
            map_of cf fmt = Some (JStr (content_filename ''gamma'' fmt)) \<and>
            content_of sr fmt = JStr (text_of (content_of sr fmt)) \<and>
            files (snd ?run) (content_path ''gamma'' fmt) = Some (text_of (content_of sr fmt))"
       "log (snd ?run) = log fresh_world @ Scrape ''http://c.io'' [''markdown'', ''html''] #
          map (\<lambda>fmt. WriteFile (content_path ''gamma'' fmt) (text_of (content_of sr fmt)))
            (filter (\<lambda>fmt. truthy (content_of sr fmt)) [''markdown'', ''html''])"
       "\<forall>path. (\<forall>fmt \<in> set [''markdown'', ''html'']. truthy (content_of sr fmt) \<longrightarrow>
                  path \<noteq> content_path ''gamma'' fmt) \<longrightarrow>
          files (snd ?run) path = files fresh_world path"
       "\<forall>fmt. take 1 ''gamma'' \<noteq> ''/'' \<longrightarrow>
            content_path ''gamma'' fmt = ''scraped_content/'' @ ''gamma'' @ ''_'' @ fmt @ ''.txt''"
  proof -
    from content_files_follow_response[OF run] show ?thesis
      by (elim exE conjE) (rule that)
  qed
  from c(1) app have sr: "sr = ?resp" by simp
  have co: "content_of ?resp ''markdown'' = JStr ''# C''" "content_of ?resp ''html'' = JNull"
    by (simp_all add: content_of_def dict_get_def)
  have paths: "content_path ''gamma'' ''markdown'' = ''scraped_content/gamma_markdown.txt''"
    "content_path ''gamma'' ''html'' = ''scraped_content/gamma_html.txt''"
    by (simp_all add: content_path_def path_join_SCRAPE_DIR content_filename_def)
  have k: "fst ` set cf = {''markdown''}"
  proof -
    have "fmt \<in> fst ` set cf \<longleftrightarrow> fmt = ''markdown''" for fmt
    proof -
      from c(4)[THEN spec, of fmt]
      have "fmt \<in> fst ` set cf \<longleftrightarrow>
              (fmt = ''markdown'' \<or> fmt = ''html'') \<and> truthy (content_of ?resp fmt)"
        by (simp only: sr list.set insert_iff empty_iff simp_thms)
      with co show ?thesis by (cases "fmt = ''markdown''") auto
    qed
    then show ?thesis by blast
  qed
  have f1: "files (snd ?run) ''scraped_content/gamma_markdown.txt'' = Some ''# C''"
    using c(5)[THEN spec, of "''markdown''"] by (simp add: sr co paths)
  have pre: "\<forall>fmt \<in> set [''markdown'', ''html'']. truthy (content_of sr fmt) \<longrightarrow>
      ''scraped_content/gamma_html.txt'' \<noteq> content_path ''gamma'' fmt"
    by (simp add: sr co paths)
  have f2: "files (snd ?run) ''scraped_content/gamma_html.txt'' = None"
    using c(7)[THEN spec, THEN mp, OF pre] by (simp add: fresh_world_def)
  have l: "log (snd ?run) = [Scrape ''http://c.io'' [''markdown'', ''html''],
               WriteFile ''scraped_content/gamma_markdown.txt'' ''# C'']"
    using c(6) by (simp add: sr co paths fresh_world_def)
  show ?thesis
  proof (intro exI conjI)
    show "?run = (Inr rcd, snd ?run)" by (fact run)
    show "dict_get rcd ''content_files'' JNull = Inr (JObj cf)" by (fact c(2))
  qed (fact k f1 f2 l)+
qed

section \<open>When the lookup raises\<close>

text \<open>
  Claim C5, as amended. The lookup raises \<^verbatim>\<open>FileNotFoundError\<close> when the metadata file
  (or the directory) does not exist, and the \<^verbatim>\<open>ValueError\<close> of line 175 when the file
  exists and \<^verbatim>\<open>json.load\<close> rejects it. When the file parses to a dictionary of records
  (each a dictionary whose \<^verbatim>\<open>content_files\<close>, if truthy, maps formats to file names),
  the lookup returns. The claim as stated promises a result in all other cases: the
  counterexample is a metadata file that holds the JSON list \<^verbatim>\<open>[]\<close>, on which
  \<^verbatim>\<open>.items()\<close> raises \<^verbatim>\<open>AttributeError\<close>.
\<close>

theorem lookup_raises_when_store_unavailable:
  "(\<not> dir_exists w \<or> metadata_file w = Absent \<longrightarrow>
      (\<exists>msg. extract_scraped_info w identifier = Inl (FileNotFoundError msg))) \<and>
   (dir_exists w \<and> metadata_file w = Unparseable e \<longrightarrow>
      extract_scraped_info w identifier =
        Inl (ValueError (''Error decoding JSON from metadata file: '' @ str_exn e))) \<and>
   (dir_exists w \<and> metadata_file w = Parsed scraped_metadata \<and> store_shaped scraped_metadata \<longrightarrow>
      (\<exists>reply. extract_scraped_info w identifier = Inr reply))"
proof (intro conjI impI)
  assume "\<not> dir_exists w \<or> metadata_file w = Absent"
  then show "\<exists>msg. extract_scraped_info w identifier = Inl (FileNotFoundError msg)"
    by (auto simp: extract_scraped_info_def)
next
  assume "dir_exists w \<and> metadata_file w = Unparseable e"
  then show "extract_scraped_info w identifier =
        Inl (ValueError (''Error decoding JSON from metadata file: '' @ str_exn e))"
    by (simp add: extract_scraped_info_def)
next
  assume h: "dir_exists w \<and> metadata_file w = Parsed scraped_metadata \<and> store_shaped scraped_metadata"
  then obtain items where i: "scraped_metadata = JObj items"
    "list_all (\<lambda>entry. record_shaped (snd entry)) items"
    by (cases scraped_metadata) (auto simp: store_shaped_def)
  from h i have ex: "extract_scraped_info w identifier =
     (case first_match identifier items of
        None \<Rightarrow> Inr (Message (not_found identifier))
      | Some data \<Rightarrow> reply_of identifier (read_entry w data))"
    by (intro extract_first_match store_shaped_dicts) simp_all
  show "\<exists>reply. extract_scraped_info w identifier = Inr reply"
  proof (cases "first_match identifier items")
    case None
    with ex show ?thesis by simp
  next
    case (Some data)
    from first_match_shaped[OF i(2) Some] have "record_shaped data" .
    from read_entry_shaped[OF this, of w] obtain r where "read_entry w data = Inr r" ..
    with ex Some show ?thesis by (cases r) (simp_all add: reply_of_def)
  qed
qed

theorem lookup_raises_on_list_store_counterexample:
  "dir_exists list_store_world \<and> metadata_file list_store_world = Parsed (JArr []) \<and>
   extract_scraped_info list_store_world ''acme'' =
     Inl (AttributeError (quoted ''list'' @ '' object has no attribute '' @ quoted ''items''))"
  by (simp add: list_store_world_def extract_scraped_info_def dict_items_def no_attribute_def)

theorem lookup_raises_when_store_unavailable_witness:
  "(\<exists>msg. extract_scraped_info fresh_world ''acme'' = Inl (FileNotFoundError msg)) \<and>
   extract_scraped_info corrupt_store_world ''acme'' =
     Inl (ValueError ''Error decoding JSON from metadata file: Expecting value: line 1 column 1 (char 0)'') \<and>
   (\<exists>reply. extract_scraped_info acme_world ''acme'' = Inr reply) \<and>
   (\<exists>reply. extract_scraped_info acme_world ''zeta'' = Inr reply)"
proof -
  have s: "store_shaped (JObj
        [(''acme'', success_record ''acme'' ''https://acme.example.com/page'' ''acme.example.com''
                     ''2025-10-23T00:44:00'' [''markdown'', ''html'']
                     [(''markdown'', JStr ''acme_markdown.txt'')] (JStr []) (JStr []))])"
    by (simp add: store_shaped_def record_shaped_def success_record_def)
  have a: "\<not> dir_exists fresh_world \<or> metadata_file fresh_world = Absent"
    by (simp add: fresh_world_def)
  have b: "dir_exists corrupt_store_world \<and> metadata_file corrupt_store_world =
      Unparseable (OtherError ''JSONDecodeError'' ''Expecting value: line 1 column 1 (char 0)'')"
    by (simp add: corrupt_store_world_def)
  have c: "dir_exists acme_world \<and> metadata_file acme_world = Parsed (JObj
        [(''acme'', success_record ''acme'' ''https://acme.example.com/page'' ''acme.example.com''
                     ''2025-10-23T00:44:00'' [''markdown'', ''html'']
                     [(''markdown'', JStr ''acme_markdown.txt'')] (JStr []) (JStr []))]) \<and>
      store_shaped (JObj
        [(''acme'', success_record ''acme'' ''https://acme.example.com/page'' ''acme.example.com''
                     ''2025-10-23T00:44:00'' [''markdown'', ''html'']
                     [(''markdown'', JStr ''acme_markdown.txt'')] (JStr []) (JStr []))])"
    using s by (simp add: acme_world_def)
  from lookup_raises_when_store_unavailable[THEN conjunct1, rule_format, OF a, of "''acme''"]
    lookup_raises_when_store_unavailable[THEN conjunct2, THEN conjunct1, rule_format, OF b, of "''acme''"]
    lookup_raises_when_store_unavailable[THEN conjunct2, THEN conjunct2, rule_format, OF c, of "''acme''"]
    lookup_raises_when_store_unavailable[THEN conjunct2, THEN conjunct2, rule_format, OF c, of "''zeta''"]
  show ?thesis by simp
qed

section \<open>An unreadable content file\<close>

text \<open>
  Claim C6. When the matched entry has a \<^verbatim>\<open>content_files\<close> dictionary and one of the
  files it names cannot be read, the lookup never returns a payload; when the dictionary
  maps every format to a file name, the lookup returns the not-found message for the
  identifier, the message that an identifier without a match gets.
\<close>

theorem unreadable_content_file_gives_not_found:
  assumes "dir_exists w" "metadata_file w = Parsed (JObj items)"
    and "find_entry identifier items = Inr (Some matched_entry)"
    and "dict_get matched_entry ''content_files'' JNull = Inr (JObj names)"
    and "(fmt, JStr name) \<in> set names"
    and "files w (path_join SCRAPE_DIR name) = None"
  shows "(\<forall>result. extract_scraped_info w identifier \<noteq> Inr (JsonText result)) \<and>
         (list_all (\<lambda>entry. is_str (snd entry)) names \<longrightarrow>
            extract_scraped_info w identifier = Inr (Message (not_found identifier))) \<and>
         (\<forall>other. find_entry other items = Inr None \<longrightarrow>
            extract_scraped_info w other = Inr (Message (not_found other)))"
proof (intro conjI allI impI)
  from assms(5) have t: "truthy (JObj names)" by auto
  have re: "read_entry w matched_entry =
     (case read_contents w names [] of
        Inl e \<Rightarrow> Inl e
      | Inr None \<Rightarrow> Inr None
      | Inr (Some content) \<Rightarrow> Inr (Some (JObj [(''content'', JObj content)])))"
    using assms(4) t by (simp add: read_entry_def dict_items_def)
  have ex: "extract_scraped_info w identifier = reply_of identifier (read_entry w matched_entry)"
    using assms(1-3) by (simp add: extract_scraped_info_def dict_items_def reply_of_def)
  { fix result
    show "extract_scraped_info w identifier \<noteq> Inr (JsonText result)"
      using read_contents_missing(1)[OF assms(5,6), of "[]"]
      by (auto simp: ex re reply_of_def split: sum.splits option.splits) }
  { assume "list_all (\<lambda>entry. is_str (snd entry)) names"
    from read_contents_missing(2)[OF assms(5,6) this, of "[]"]
    show "extract_scraped_info w identifier = Inr (Message (not_found identifier))"
      by (simp add: ex re reply_of_def) }
  { fix other
    assume "find_entry other items = Inr None"
    with assms(1,2) show "extract_scraped_info w other = Inr (Message (not_found other))"
      by (simp add: extract_scraped_info_def dict_items_def) }
qed

theorem unreadable_content_file_gives_not_found_witness:
  "extract_scraped_info missing_file_world ''acme'' = Inr (Message (not_found ''acme'')) \<and>
   extract_scraped_info missing_file_world ''acme.example.com'' =
     Inr (Message (not_found ''acme.example.com'')) \<and>
   extract_scraped_info missing_file_world ''zeta'' = Inr (Message (not_found ''zeta''))"
proof -
  let ?names = "[(''markdown'', JStr ''acme_markdown.txt''), (''html'', JStr ''acme_html.txt'')]"
  let ?data = "success_record ''acme'' ''https://acme.example.com/page'' ''acme.example.com''
                     ''2025-10-23T00:44:00'' [''markdown'', ''html''] ?names (JStr []) (JStr [])"
  have a: "dir_exists missing_file_world"
    "metadata_file missing_file_world = Parsed (JObj [(''acme'', ?data)])"
    by (simp_all add: missing_file_world_def)
  have f: "find_entry ''acme'' [(''acme'', ?data)] = Inr (Some ?data)"
    "find_entry ''acme.example.com'' [(''acme'', ?data)] = Inr (Some ?data)"
    "find_entry ''zeta'' [(''acme'', ?data)] = Inr None"
    by (simp_all add: lookup_defs)
  have c: "dict_get ?data ''content_files'' JNull = Inr (JObj ?names)"
    by (simp add: lookup_defs)
  have m: "(''html'', JStr ''acme_html.txt'') \<in> set ?names"
    "files missing_file_world (path_join SCRAPE_DIR ''acme_html.txt'') = None"
    "list_all (\<lambda>entry. is_str (snd entry)) ?names"
    by (simp_all add: missing_file_world_def path_join_SCRAPE_DIR)
  from unreadable_content_file_gives_not_found[OF a f(1) c m(1,2)]
    unreadable_content_file_gives_not_found[OF a f(2) c m(1,2)] m(3) f(3)
  show ?thesis by simp
qed

section \<open>The metadata file is written once, after the loop\<close>

text \<open>
  Claim C7. In every call of \<open>scrape_websites\<close> the effects form a list that extends the
  log. When the call returns, the last effect is the one write of the metadata file, no
  write of it stands before, and every provider of the batch has been handed to the
  collaborator before it; the file then holds what was written. When the call raises, the
  metadata file has not been written and is as it was. The loop itself, run on any number
  of the batch's providers from any state, leaves the metadata file untouched: a run cut
  short inside the batch leaves the file of the previous run.
\<close>

theorem metadata_written_once_at_end:
  assumes "scrape_websites E websites formats api_key w = (res, w')"
  shows "(\<exists>evs. log w' = log w @ evs \<and>
      (case res of
         Inr ok \<Rightarrow>
           \<exists>before sm. evs = before @ [WriteMetadata sm] \<and> metadata_writes before = [] \<and>
             scraped_urls before = map snd websites \<and> metadata_file w' = Parsed sm
       | Inl e \<Rightarrow> metadata_writes evs = [] \<and> metadata_file w' = metadata_file w)) \<and>
     (\<forall>n. metadata_file (snd (scrape_loop E app formats (take n websites) st w0)) = metadata_file w0)"
proof
  show "\<forall>n. metadata_file (snd (scrape_loop E app formats (take n websites) st w0)) = metadata_file w0"
  proof
    fix n
    obtain r1 w1 where l: "scrape_loop E app formats (take n websites) st w0 = (r1, w1)"
      by (cases "scrape_loop E app formats (take n websites) st w0")
    from scrape_loop_frame[OF l] l show
      "metadata_file (snd (scrape_loop E app formats (take n websites) st w0)) = metadata_file w0"
      by simp
  qed
next
  show "\<exists>evs. log w' = log w @ evs \<and>
      (case res of
         Inr ok \<Rightarrow>
           \<exists>before sm. evs = before @ [WriteMetadata sm] \<and> metadata_writes before = [] \<and>
             scraped_urls before = map snd websites \<and> metadata_file w' = Parsed sm
       | Inl e \<Rightarrow> metadata_writes evs = [] \<and> metadata_file w' = metadata_file w)"
  proof (cases "resolve_api_key E api_key")
    case (Inl e)
    with assms have "res = Inl e" "w' = w" by (simp_all add: scrape_websites_def)
    then show ?thesis by simp
  next
    case (Inr key)
    with assms have swk: "scrape_with_key E websites formats key w = (res, w')"
      by (simp add: scrape_websites_def)
    let ?w1 = "emit (NewApp key) w"
    show ?thesis
    proof (cases "FirecrawlApp E key")
      case (Inl e)
      with swk have "res = Inl e" "w' = ?w1" by (simp_all add: scrape_with_key_def Let_def)
      then show ?thesis by simp
    next
      case app: (Inr app)
      let ?w2 = "?w1\<lparr>dir_exists := True\<rparr>"
      have w2: "log ?w2 = log w @ [NewApp key]" "metadata_file ?w2 = metadata_file w"
        by simp_all
      show ?thesis
      proof (cases "load_metadata ?w2")
        case (Inl e)
        with swk app have "res = Inl e" "w' = ?w2" by (simp_all add: scrape_with_key_def Let_def)
        with w2 show ?thesis by simp
      next
        case sm0: (Inr sm0)
        obtain r3 w3 where l: "scrape_loop E app formats websites (sm0, []) ?w2 = (r3, w3)"
          by (cases "scrape_loop E app formats websites (sm0, []) ?w2")
        from scrape_loop_frame[OF l] obtain evs3 where
          f3: "log w3 = log ?w2 @ evs3" "metadata_writes evs3 = []"
              "(case r3 of Inr st' \<Rightarrow> scraped_urls evs3 = map snd websites | Inl e \<Rightarrow> True)"
              "metadata_file w3 = metadata_file ?w2"
          by blast
        show ?thesis
        proof (cases r3)
          case (Inl e)
          with swk app sm0 l have "res = Inl e" "w' = w3"
            by (simp_all add: scrape_with_key_def Let_def)
          with f3 w2 show ?thesis by simp
        next
          case (Inr st3)
          obtain sm ok where st3: "st3 = (sm, ok)" by (cases st3)
          show ?thesis
          proof (cases "open_w E metadata_path")
            case (Some e)
            with swk app sm0 l Inr st3 have "res = Inl e" "w' = w3"
              by (simp_all add: scrape_with_key_def Let_def)
            with f3 w2 show ?thesis by simp
          next
            case None
            with swk app sm0 l Inr st3
            have r: "res = Inr ok" "w' = emit (WriteMetadata sm) (w3\<lparr>metadata_file := Parsed sm\<rparr>)"
              by (simp_all add: scrape_with_key_def Let_def)
            have "log w' = log w @ ((NewApp key # evs3) @ [WriteMetadata sm])"
              using r f3 w2 by simp
            moreover have "metadata_writes (NewApp key # evs3) = []" using f3 by simp
            moreover have "scraped_urls (NewApp key # evs3) = map snd websites"
              using f3 Inr by simp
            moreover have "metadata_file w' = Parsed sm" using r by simp
            ultimately show ?thesis using r(1) by auto
          qed
        qed
      qed
    qed
  qed
qed

theorem metadata_written_once_at_end_witness:
  "fst (scrape_websites demo_env demo_sites [''markdown'', ''html''] (Some ''k'') fresh_world) =
     Inr [''acme'', ''gamma''] \<and>
   (\<exists>before sm.
      log (snd (scrape_websites demo_env demo_sites [''markdown'', ''html''] (Some ''k'') fresh_world)) =
        before @ [WriteMetadata sm] \<and>
      metadata_writes before = [] \<and>
      scraped_urls before = [''http://a.io/p'', ''http://b.io'', ''http://c.io''] \<and>
      metadata_file (snd (scrape_websites demo_env demo_sites [''markdown'', ''html''] (Some ''k'') fresh_world)) =
        Parsed sm)"
proof -
  let ?run = "scrape_websites demo_env demo_sites [''markdown'', ''html''] (Some ''k'') fresh_world"
  have "?run = (fst ?run, snd ?run)" by simp
  from metadata_written_once_at_end[OF this] demo_run
  show ?thesis by (simp add: fresh_world_def demo_sites_def)
qed

section \<open>The missing credential\<close>

text \<open>
  Claim C8. With no credential argument the environment variable \<^verbatim>\<open>FIRECRAWL_API_KEY\<close> is
  read, and no other. When it is unset or empty the call raises the \<^verbatim>\<open>ValueError\<close> of
  line 47 and the world is what it was: no client was built, no page was requested, no
  file and no record were written. When it holds a value, that value is the credential:
  the constructor of the client is called with it; when the constructor raises, its
  exception leaves the call and nothing else has happened; when it returns a client, the
  batch runs with that client, and the list returned is the list of that client's
  successes. The call is then the call with the variable's value as the argument.
\<close>

theorem missing_credential_fails_first:
  "scrape_websites E websites formats None w =
     (case getenv E ''FIRECRAWL_API_KEY'' of
        None \<Rightarrow> (Inl (ValueError missing_key_message), w)
      | Some k \<Rightarrow>
          if k = [] then (Inl (ValueError missing_key_message), w)
          else scrape_websites E websites formats (Some k) w) \<and>
   (\<forall>k. getenv E ''FIRECRAWL_API_KEY'' = Some k \<and> k \<noteq> [] \<longrightarrow>
      resolve_api_key E None = Inr k \<and>
      (\<forall>e. FirecrawlApp E k = Inl e \<longrightarrow>
         scrape_websites E websites formats None w = (Inl e, emit (NewApp k) w)) \<and>
      (\<forall>app. FirecrawlApp E k = Inr app \<longrightarrow>
         scrape_websites E websites formats None w =
           (let w2 = (emit (NewApp k) w)\<lparr>dir_exists := True\<rparr> in
            case load_metadata w2 of
              Inl e \<Rightarrow> (Inl e, w2)
            | Inr scraped_metadata \<Rightarrow>
                (case scrape_loop E app formats websites (scraped_metadata, []) w2 of
                   (Inl e, w3) \<Rightarrow> (Inl e, w3)
                 | (Inr (sm, successful_scrapes), w3) \<Rightarrow>
                     (case open_w E metadata_path of
                        Some e \<Rightarrow> (Inl e, w3)
                      | None \<Rightarrow>
                          (Inr successful_scrapes,
                           emit (WriteMetadata sm) (w3\<lparr>metadata_file := Parsed sm\<rparr>)))))) \<and>
      (\<forall>app. FirecrawlApp E k = Inr app \<and> metadata_file w = Absent \<and>
         (\<forall>site \<in> set websites. \<exists>d. urlparse_netloc E (snd site) = Inr d) \<and>
         open_w E metadata_path = None \<longrightarrow>
         fst (scrape_websites E websites formats None w) =
           Inr (map fst (filter (scrape_succeeds E app formats) websites))) \<and>
      (\<exists>evs. log (snd (scrape_websites E websites formats None w)) = log w @ NewApp k # evs)) \<and>
   (\<forall>g. g ''FIRECRAWL_API_KEY'' = getenv E ''FIRECRAWL_API_KEY'' \<longrightarrow>
      scrape_websites (E\<lparr>getenv := g\<rparr>) websites formats None w =
        scrape_websites E websites formats None w)"
proof (intro conjI allI impI)
  show "scrape_websites E websites formats None w =
     (case getenv E ''FIRECRAWL_API_KEY'' of
        None \<Rightarrow> (Inl (ValueError missing_key_message), w)
      | Some k \<Rightarrow>
          if k = [] then (Inl (ValueError missing_key_message), w)
          else scrape_websites E websites formats (Some k) w)"
    by (simp add: scrape_websites_def resolve_api_key_def split: option.splits)
next
  fix k assume "getenv E ''FIRECRAWL_API_KEY'' = Some k \<and> k \<noteq> []"
  then show "resolve_api_key E None = Inr k" by (simp add: resolve_api_key_def)
next
  fix k e assume "getenv E ''FIRECRAWL_API_KEY'' = Some k \<and> k \<noteq> []" "FirecrawlApp E k = Inl e"
  then show "scrape_websites E websites formats None w = (Inl e, emit (NewApp k) w)"
    by (simp add: scrape_websites_def resolve_api_key_def scrape_with_key_refused)
next
  fix k app assume "getenv E ''FIRECRAWL_API_KEY'' = Some k \<and> k \<noteq> []" "FirecrawlApp E k = Inr app"
  then show "scrape_websites E websites formats None w =
           (let w2 = (emit (NewApp k) w)\<lparr>dir_exists := True\<rparr> in
            case load_metadata w2 of
              Inl e \<Rightarrow> (Inl e, w2)
            | Inr scraped_metadata \<Rightarrow>
                (case scrape_loop E app formats websites (scraped_metadata, []) w2 of
                   (Inl e, w3) \<Rightarrow> (Inl e, w3)
                 | (Inr (sm, successful_scrapes), w3) \<Rightarrow>
                     (case open_w E metadata_path of
                        Some e \<Rightarrow> (Inl e, w3)
                      | None \<Rightarrow>
                          (Inr successful_scrapes,
                           emit (WriteMetadata sm) (w3\<lparr>metadata_file := Parsed sm\<rparr>)))))"
    using scrape_with_key_built[of E k app websites formats w]
    by (simp add: scrape_websites_def resolve_api_key_def)
next
  fix k app
  assume g: "getenv E ''FIRECRAWL_API_KEY'' = Some k \<and> k \<noteq> []"
    and p: "FirecrawlApp E k = Inr app \<and> metadata_file w = Absent \<and>
         (\<forall>site \<in> set websites. \<exists>d. urlparse_netloc E (snd site) = Inr d) \<and>
         open_w E metadata_path = None"
  from g have a: "resolve_api_key E None = Inr k" by (simp add: resolve_api_key_def)
  from p have p1: "FirecrawlApp E k = Inr app"
    and p2: "metadata_file w = Absent \<and> ([]::(string \<times> json) list) = [] \<or> metadata_file w = Parsed (JObj [])"
    and p3: "\<forall>site \<in> set websites. \<exists>d. urlparse_netloc E (snd site) = Inr d"
    and p4: "open_w E metadata_path = None" by simp_all
  from scrape_websites_returns[OF a p1 p2 p3 p4, of formats] obtain new w' where
    "scrape_websites E websites formats None w =
       (Inr (map fst (filter (scrape_succeeds E app formats) websites)), w')" by blast
  then show "fst (scrape_websites E websites formats None w) =
      Inr (map fst (filter (scrape_succeeds E app formats) websites))" by simp
next
  fix k assume "getenv E ''FIRECRAWL_API_KEY'' = Some k \<and> k \<noteq> []"
  then have "scrape_websites E websites formats None w = scrape_with_key E websites formats k w"
    by (simp add: scrape_websites_def resolve_api_key_def)
  with scrape_with_key_log[of E websites formats k w]
  show "\<exists>evs. log (snd (scrape_websites E websites formats None w)) = log w @ NewApp k # evs"
    by simp
next
  fix g assume "g ''FIRECRAWL_API_KEY'' = getenv E ''FIRECRAWL_API_KEY''"
  then have "resolve_api_key (E\<lparr>getenv := g\<rparr>) None = resolve_api_key E None"
    by (simp add: resolve_api_key_def)
  then show "scrape_websites (E\<lparr>getenv := g\<rparr>) websites formats None w =
        scrape_websites E websites formats None w"
    by (simp add: scrape_websites_def scrape_with_key_getenv cong: sum.case_cong)
qed

theorem missing_credential_fails_first_witness:
  "scrape_websites demo_env demo_sites [''markdown''] None fresh_world =
     (Inl (ValueError missing_key_message), fresh_world) \<and>
   scrape_websites (demo_env\<lparr>getenv := (\<lambda>name. Some [])\<rparr>) demo_sites [''markdown''] None fresh_world =
     (Inl (ValueError missing_key_message), fresh_world) \<and>
   resolve_api_key strict_env None = Inr ''env-key'' \<and>
   fst (scrape_websites strict_env demo_sites [''markdown''] None fresh_world) =
     Inr (map fst (filter (scrape_succeeds strict_env demo_app [''markdown'']) demo_sites)) \<and>
   fst (scrape_websites strict_env demo_sites [''markdown''] None fresh_world) = Inr [''acme'', ''gamma''] \<and>
   scrape_websites (strict_env\<lparr>getenv := (\<lambda>name. if name = ''FIRECRAWL_API_KEY'' then Some ''other-key'' else None)\<rparr>)
       demo_sites [''markdown''] None fresh_world =
     (Inl (ValueError ''No API key provided''), emit (NewApp ''other-key'') fresh_world)"
proof -
  let ?other = "strict_env\<lparr>getenv := (\<lambda>name. if name = ''FIRECRAWL_API_KEY'' then Some ''other-key'' else None)\<rparr>"
  have 1: "scrape_websites demo_env demo_sites [''markdown''] None fresh_world =
     (Inl (ValueError missing_key_message), fresh_world)"
    using missing_credential_fails_first[of demo_env demo_sites "[''markdown'']" fresh_world, THEN conjunct1]
    by (simp add: demo_env_def)
  have 2: "scrape_websites (demo_env\<lparr>getenv := (\<lambda>name. Some [])\<rparr>) demo_sites [''markdown''] None fresh_world =
     (Inl (ValueError missing_key_message), fresh_world)"
    using missing_credential_fails_first[of "demo_env\<lparr>getenv := (\<lambda>name. Some [])\<rparr>" demo_sites
            "[''markdown'']" fresh_world, THEN conjunct1]
    by (simp add: demo_env_def)
  have abs: "metadata_file fresh_world = Absent" by (simp add: fresh_world_def)
  have k: "getenv strict_env ''FIRECRAWL_API_KEY'' = Some ''env-key'' \<and> ''env-key'' \<noteq> []"
    by (simp add: strict_env_fields)
  note set = missing_credential_fails_first[of strict_env demo_sites "[''markdown'']" fresh_world,
               THEN conjunct2, THEN conjunct1, THEN spec, THEN mp, OF k]
  from set have 3: "resolve_api_key strict_env None = Inr ''env-key''" by (elim conjE)
  have 4:
    "fst (scrape_websites strict_env demo_sites [''markdown''] None fresh_world) =
       Inr (map fst (filter (scrape_succeeds strict_env demo_app [''markdown'']) demo_sites))"
    by (rule set[THEN conjunct2, THEN conjunct2, THEN conjunct2, THEN conjunct1, THEN spec, THEN mp])
       (simp add: strict_env_fields abs)
  have 5: "fst (scrape_websites strict_env demo_sites [''markdown''] None fresh_world) = Inr [''acme'', ''gamma'']"
    by (simp add: model_defs strict_env_def demo_env_def demo_app_def demo_netloc_def demo_sites_def
        fresh_world_def Let_def)
  have ko: "getenv ?other ''FIRECRAWL_API_KEY'' = Some ''other-key'' \<and> ''other-key'' \<noteq> []"
    by simp
  have ro: "FirecrawlApp ?other ''other-key'' = Inl (ValueError ''No API key provided'')"
    by (simp add: strict_env_def)
  note other = missing_credential_fails_first[of ?other demo_sites "[''markdown'']" fresh_world,
               THEN conjunct2, THEN conjunct1, THEN spec, THEN mp, OF ko]
  from other have
    "\<forall>e. FirecrawlApp ?other ''other-key'' = Inl e \<longrightarrow>
       scrape_websites ?other demo_sites [''markdown''] None fresh_world =
         (Inl e, emit (NewApp ''other-key'') fresh_world)"
    by (elim conjE)
  from this[THEN spec, THEN mp, OF ro] have 6:
    "scrape_websites ?other demo_sites [''markdown''] None fresh_world =
       (Inl (ValueError ''No API key provided''), emit (NewApp ''other-key'') fresh_world)" .
  from 1 2 3 4 5 6 show ?thesis by (intro conjI)
qed

section \<open>Title and description come from the nested metadata\<close>



section \<open>A supplied credential is used as it is\<close>

text \<open>
  Claim C10. With a credential argument other than \<^verbatim>\<open>None\<close>, the empty string included, the
  credential check yields the argument itself; the check raises only for \<^verbatim>\<open>None\<close>. The
  constructor of the client is called with the argument as given: when it raises, its
  exception leaves the call and nothing else has happened; when it returns a client, the
  batch runs with that client, and the list returned is the list of that client's
  successes. The result depends neither on the environment variable nor on what the
  constructor does with any other key.
\<close>

theorem supplied_key_is_passed_through:
  "resolve_api_key E (Some key) = Inr key \<and>
   (\<forall>api_key e. resolve_api_key E api_key = Inl e \<longrightarrow> api_key = None) \<and>
   (\<forall>e. FirecrawlApp E key = Inl e \<longrightarrow>
      scrape_websites E websites formats (Some key) w = (Inl e, emit (NewApp key) w)) \<and>
   (\<forall>app. FirecrawlApp E key = Inr app \<longrightarrow>
      scrape_websites E websites formats (Some key) w =
        (let w2 = (emit (NewApp key) w)\<lparr>dir_exists := True\<rparr> in
         case load_metadata w2 of
           Inl e \<Rightarrow> (Inl e, w2)
         | Inr scraped_metadata \<Rightarrow>
             (case scrape_loop E app formats websites (scraped_metadata, []) w2 of
                (Inl e, w3) \<Rightarrow> (Inl e, w3)
              | (Inr (sm, successful_scrapes), w3) \<Rightarrow>
                  (case open_w E metadata_path of
                     Some e \<Rightarrow> (Inl e, w3)
                   | None \<Rightarrow>
                       (Inr successful_scrapes,
                        emit (WriteMetadata sm) (w3\<lparr>metadata_file := Parsed sm\<rparr>)))))) \<and>
   (\<forall>app. FirecrawlApp E key = Inr app \<and> metadata_file w = Absent \<and>
      (\<forall>site \<in> set websites. \<exists>d. urlparse_netloc E (snd site) = Inr d) \<and>
      open_w E metadata_path = None \<longrightarrow>
      fst (scrape_websites E websites formats (Some key) w) =
        Inr (map fst (filter (scrape_succeeds E app formats) websites))) \<and>
   (\<forall>F. F key = FirecrawlApp E key \<longrightarrow>
      scrape_websites (E\<lparr>getenv := g, FirecrawlApp := F\<rparr>) websites formats (Some key) w =
        scrape_websites E websites formats (Some key) w) \<and>
   scrape_websites E websites formats (Some key) w = scrape_with_key E websites formats key w \<and>
   scrape_websites (E\<lparr>getenv := g\<rparr>) websites formats (Some key) w =
     scrape_websites E websites formats (Some key) w \<and>
   (\<exists>evs. log (snd (scrape_websites E websites formats (Some key) w)) = log w @ NewApp key # evs)"
proof -
  have a: "resolve_api_key E (Some key) = Inr key" by (simp add: resolve_api_key_def)
  have b: "\<forall>api_key e. resolve_api_key E api_key = Inl e \<longrightarrow> api_key = None"
    by (auto simp: resolve_api_key_def split: option.splits)
  have c: "scrape_websites E' websites formats (Some key) w = scrape_with_key E' websites formats key w"
    for E' by (simp add: scrape_websites_def resolve_api_key_def)
  have d: "scrape_websites (E\<lparr>getenv := g\<rparr>) websites formats (Some key) w =
     scrape_websites E websites formats (Some key) w"
    by (simp only: c scrape_with_key_getenv)
  have e: "\<forall>e. FirecrawlApp E key = Inl e \<longrightarrow>
      scrape_websites E websites formats (Some key) w = (Inl e, emit (NewApp key) w)"
    by (simp only: c) (simp add: scrape_with_key_refused)
  have f: "\<forall>app. FirecrawlApp E key = Inr app \<longrightarrow>
      scrape_websites E websites formats (Some key) w =
        (let w2 = (emit (NewApp key) w)\<lparr>dir_exists := True\<rparr> in
         case load_metadata w2 of
           Inl e \<Rightarrow> (Inl e, w2)
         | Inr scraped_metadata \<Rightarrow>
             (case scrape_loop E app formats websites (scraped_metadata, []) w2 of
                (Inl e, w3) \<Rightarrow> (Inl e, w3)
              | (Inr (sm, successful_scrapes), w3) \<Rightarrow>
                  (case open_w E metadata_path of
                     Some e \<Rightarrow> (Inl e, w3)
                   | None \<Rightarrow>
                       (Inr successful_scrapes,
                        emit (WriteMetadata sm) (w3\<lparr>metadata_file := Parsed sm\<rparr>)))))"
    using scrape_with_key_built[of E key _ websites formats w] by (simp only: c) blast
  have h: "\<forall>app. FirecrawlApp E key = Inr app \<and> metadata_file w = Absent \<and>
      (\<forall>site \<in> set websites. \<exists>d. urlparse_netloc E (snd site) = Inr d) \<and>
      open_w E metadata_path = None \<longrightarrow>
      fst (scrape_websites E websites formats (Some key) w) =
        Inr (map fst (filter (scrape_succeeds E app formats) websites))"
  proof (intro allI impI)
    fix app
    assume p: "FirecrawlApp E key = Inr app \<and> metadata_file w = Absent \<and>
      (\<forall>site \<in> set websites. \<exists>d. urlparse_netloc E (snd site) = Inr d) \<and>
      open_w E metadata_path = None"
    then have p1: "FirecrawlApp E key = Inr app"
      and p2: "metadata_file w = Absent \<and> ([]::(string \<times> json) list) = [] \<or> metadata_file w = Parsed (JObj [])"
      and p3: "\<forall>site \<in> set websites. \<exists>d. urlparse_netloc E (snd site) = Inr d"
      and p4: "open_w E metadata_path = None" by simp_all
    from scrape_websites_returns[OF a p1 p2 p3 p4, of formats] obtain new w' where
      "scrape_websites E websites formats (Some key) w =
         (Inr (map fst (filter (scrape_succeeds E app formats) websites)), w')" by blast
    then show "fst (scrape_websites E websites formats (Some key) w) =
        Inr (map fst (filter (scrape_succeeds E app formats) websites))" by simp
  qed
  have i: "\<forall>F. F key = FirecrawlApp E key \<longrightarrow>
      scrape_websites (E\<lparr>getenv := g, FirecrawlApp := F\<rparr>) websites formats (Some key) w =
        scrape_websites E websites formats (Some key) w"
  proof (intro allI impI)
    fix F assume k: "F key = FirecrawlApp E key"
    then have "F key = FirecrawlApp (E\<lparr>getenv := g\<rparr>) key" by simp
    from scrape_with_key_constructor[where F = F and key = key and E = "E\<lparr>getenv := g\<rparr>"
           and ws = websites and fs = formats and w = w, OF this]
    show "scrape_websites (E\<lparr>getenv := g, FirecrawlApp := F\<rparr>) websites formats (Some key) w =
        scrape_websites E websites formats (Some key) w"
      by (simp only: c scrape_with_key_getenv)
  qed
  have j: "\<exists>evs. log (snd (scrape_websites E websites formats (Some key) w)) = log w @ NewApp key # evs"
    using scrape_with_key_log[of E websites formats key w] by (simp only: c)
  from a b e f h i c[of E] d j show ?thesis by (intro conjI)
qed

theorem supplied_key_is_passed_through_witness:
  "scrape_websites strict_env demo_sites [''markdown''] (Some []) fresh_world =
     (Inl (ValueError ''No API key provided''), emit (NewApp []) fresh_world) \<and>
   fst (scrape_websites strict_env demo_sites [''markdown''] (Some ''env-key'') fresh_world) =
     Inr (map fst (filter (scrape_succeeds strict_env demo_app [''markdown'']) demo_sites)) \<and>
   fst (scrape_websites strict_env demo_sites [''markdown''] (Some ''env-key'') fresh_world) =
     Inr [''acme'', ''gamma''] \<and>
   scrape_websites (strict_env\<lparr>getenv := (\<lambda>name. None), FirecrawlApp := (\<lambda>key. Inl (ValueError ''No API key provided''))\<rparr>)
       demo_sites [''markdown''] (Some []) fresh_world =
     scrape_websites strict_env demo_sites [''markdown''] (Some []) fresh_world"
proof -
  note refused = supplied_key_is_passed_through[of strict_env "[]" demo_sites "[''markdown'']" fresh_world
                   "\<lambda>name. None"]
  note built = supplied_key_is_passed_through[of strict_env "''env-key''" demo_sites "[''markdown'']"
                 fresh_world "\<lambda>name. None"]
  have abs: "metadata_file fresh_world = Absent" by (simp add: fresh_world_def)
  from refused have
    "\<forall>e. FirecrawlApp strict_env [] = Inl e \<longrightarrow>
       scrape_websites strict_env demo_sites [''markdown''] (Some []) fresh_world =
         (Inl e, emit (NewApp []) fresh_world)"
    by (elim conjE)
  with strict_env_fields(2) have 1:
    "scrape_websites strict_env demo_sites [''markdown''] (Some []) fresh_world =
       (Inl (ValueError ''No API key provided''), emit (NewApp []) fresh_world)"
    by simp
  have 2:
    "fst (scrape_websites strict_env demo_sites [''markdown''] (Some ''env-key'') fresh_world) =
       Inr (map fst (filter (scrape_succeeds strict_env demo_app [''markdown'']) demo_sites))"
    by (rule built[THEN conjunct2, THEN conjunct2, THEN conjunct2, THEN conjunct2, THEN conjunct1,
                   THEN spec, THEN mp])
       (simp add: strict_env_fields abs)
  from refused have
    "\<forall>F. F [] = FirecrawlApp strict_env [] \<longrightarrow>
      scrape_websites (strict_env\<lparr>getenv := (\<lambda>name. None), FirecrawlApp := F\<rparr>) demo_sites [''markdown'']
          (Some []) fresh_world =
        scrape_websites strict_env demo_sites [''markdown''] (Some []) fresh_world"
    by (elim conjE)
  from this[THEN spec, of "\<lambda>key. Inl (ValueError ''No API key provided'')"] strict_env_fields(2) have 3:
    "scrape_websites (strict_env\<lparr>getenv := (\<lambda>name. None), FirecrawlApp := (\<lambda>key. Inl (ValueError ''No API key provided''))\<rparr>)
       demo_sites [''markdown''] (Some []) fresh_world =
     scrape_websites strict_env demo_sites [''markdown''] (Some []) fresh_world"
    by simp
  from 1 2 strict_run 3 show ?thesis by (intro conjI)
qed

end
